theory Spec2Isabelle
  imports Complex_Main "HOL-Library.AList" "HOL-Library.Multiset"
begin

section \<open>Data model of the exporter (export.py)\<close>

text \<open>
  The exporter reads a Blender scene and writes PlayCanvas JSON documents. The host data
  it reads is modelled by records that carry exactly the attributes the source touches.
  Floats are modelled by \<^typ>\<open>real\<close>: the exporter only copies and compares them.
\<close>

type_synonym vec2 = "real \<times> real"
type_synonym vec3 = "real \<times> real \<times> real"

text \<open>The Python exceptions the modelled code can raise.\<close>

datatype error = KeyError | IndexError | ValueError | UnboundLocalError

text \<open>
  A texture slot of a material (\<open>material.texture_slots[i]\<close>): its name, the type of its
  texture (\<open>tex.texture.type\<close>) and the UV layer it names (\<open>tex.uv_layer\<close>).
\<close>

record TextureSlot =
  tex_name :: string
  tex_type :: string
  tex_uv_layer :: string

record Material =
  mat_name :: string
  mat_texture_slots :: "TextureSlot option list"
  mat_use_textures :: "bool list"

text \<open>
  A \<open>bmesh\<close> mesh. A vertex is an object with an identity (\<open>v_id\<close>) and a position
  \<open>co\<close>; a loop is one corner of a face and carries its vertex, one UV coordinate for
  each UV layer of the mesh and one colour for each vertex-colour layer; a face has its
  loops and a \<open>material_index\<close>.
\<close>

record BMVert =
  v_id :: nat
  v_co :: vec3

record BMLoop =
  l_vert :: BMVert
  l_uv :: "vec2 list"
  l_color :: "vec3 list"

record BMFace =
  f_loops :: "BMLoop list"
  f_material_index :: nat

record BMesh =
  bm_verts :: "BMVert list"
  bm_faces :: "BMFace list"
  bm_uv_layers :: "string list"
  bm_vertex_colors :: nat
  bm_active_index :: int

text \<open>\<open>face.verts\<close>: the vertices of a face, one for each loop.\<close>

definition f_verts :: "BMFace \<Rightarrow> BMVert list" where
  "f_verts face = map l_vert (f_loops face)"

text \<open>
  A mesh datablock (\<open>bpy.types.Mesh\<close>): name, material list and geometry. The geometry is
  kept in the form \<open>bmesh.from_mesh\<close> loads it; \<open>mesh.uv_layers\<close> are the UV layers of
  that geometry.
\<close>

record Mesh =
  me_name :: string
  me_materials :: "Material list"
  me_geometry :: BMesh

definition me_uv_layers :: "Mesh \<Rightarrow> string list" where
  "me_uv_layers mesh = bm_uv_layers (me_geometry mesh)"

text \<open>
  \<open>obj.data\<close>. An object has type \<open>'MESH'\<close> exactly when its data is a mesh. The data of
  any other object is only asked for its \<open>materials\<close> attribute, which it may lack
  (\<open>hasattr(data, 'materials')\<close>).
\<close>

datatype ObjData = MeshData Mesh | OtherData "Material list option"

text \<open>
  A scene object. \<open>ob_parent\<close> is the name of \<open>obj.parent\<close> (\<open>None\<close> for no parent):
  the exporter reads nothing else of a parent. \<open>ob_translation\<close>, \<open>ob_euler\<close> and
  \<open>ob_to_scale\<close> are \<open>matrix_local.translation\<close>, \<open>matrix_local.to_euler()\<close> and
  \<open>matrix_local.to_scale()\<close>.
\<close>

record Object =
  ob_name :: string
  ob_parent :: "string option"
  ob_data :: ObjData
  ob_scale :: vec3
  ob_translation :: vec3
  ob_euler :: vec3
  ob_to_scale :: vec3

definition is_MESH :: "Object \<Rightarrow> bool" where
  "is_MESH obj = (case ob_data obj of MeshData _ \<Rightarrow> True | OtherData _ \<Rightarrow> False)"

text \<open>
  What the exporter calls on Blender and on the operating system, and does not define
  itself: the mesh datablocks \<open>bpy.data.meshes\<close> by name, \<open>bmesh.ops.triangulate\<close> on a
  face list, the split normal \<open>calc_normals_split\<close> computes for the corner with a given
  loop index, the name \<open>bpy.data.meshes.new("EmptyMesh")\<close> gives the new datablock, and
  \<open>os.path.relpath\<close>.
\<close>

record Host =
  bpy_data_meshes :: "string \<Rightarrow> Mesh option"
  triangulate :: "BMFace list \<Rightarrow> BMFace list"
  calc_normals_split :: "BMesh \<Rightarrow> nat \<Rightarrow> vec3"
  new_mesh_name :: string
  relpath :: "string \<Rightarrow> string \<Rightarrow> string"

text \<open>An entry of \<open>mesh_list\<close>: \<open>('name', bmesh_obj, [instance_list])\<close>.\<close>

type_synonym SubMesh = "string \<times> BMesh \<times> Object list"

section \<open>Geometry splitter: \<open>separate_mesh_by_material\<close>\<close>

text \<open>
  The loop that collects the isolated vertices: every vertex is appended, and taken out
  again at the first face that has it.
\<close>

definition vert_remove_list :: "BMesh \<Rightarrow> BMVert list" where
  "vert_remove_list new_mesh =
     fold (\<lambda>vert rl.
            fold (\<lambda>face rl. if vert \<in> set (f_verts face) \<and> vert \<in> set rl
                             then remove1 vert rl else rl)
                 (bm_faces new_mesh) (rl @ [vert]))
          (bm_verts new_mesh) []"

text \<open>The body of the loop over \<open>enumerate(mesh.materials)\<close>.\<close>

definition split_material ::
    "Mesh \<Rightarrow> BMesh \<Rightarrow> Object list \<Rightarrow> nat \<times> Material \<Rightarrow> SubMesh list" where
  "split_material mesh old_mesh obj = (\<lambda>(mat_id, mat).
     let face_remove_list = filter (\<lambda>face. f_material_index face \<noteq> mat_id) (bm_faces old_mesh);
         new_mesh = old_mesh\<lparr>bm_faces := fold remove1 face_remove_list (bm_faces old_mesh)\<rparr>;
         new_mesh = new_mesh\<lparr>bm_verts := fold remove1 (vert_remove_list new_mesh) (bm_verts new_mesh)\<rparr>;
         mesh_name = (if length (me_materials mesh) = 1 then me_name mesh
                      else me_name mesh @ ''.'' @ mat_name mat)
     in if bm_verts new_mesh \<noteq> [] then [(mesh_name, new_mesh, obj)] else [])"

definition separate_mesh_by_material :: "Host \<Rightarrow> Mesh \<Rightarrow> Object list \<Rightarrow> SubMesh list" where
  "separate_mesh_by_material host mesh obj =
     (let old_mesh = (me_geometry mesh)\<lparr>bm_faces := triangulate host (bm_faces (me_geometry mesh))\<rparr>
      in if me_materials mesh \<noteq> []
         then concat (map (split_material mesh old_mesh obj) (enumerate 0 (me_materials mesh)))
         else [(me_name mesh, old_mesh, obj)])"

text \<open>The triangulated face set of a mesh.\<close>

definition triangulated_faces :: "Host \<Rightarrow> Mesh \<Rightarrow> BMFace list" where
  "triangulated_faces host mesh = triangulate host (bm_faces (me_geometry mesh))"

text \<open>
  What \<open>bmesh\<close> guarantees of a triangulated mesh: a face has three loops, and the vertex
  of a loop is a vertex of the mesh.
\<close>

definition triangles_in :: "BMVert list \<Rightarrow> BMFace list \<Rightarrow> bool" where
  "triangles_in vs fs =
     list_all (\<lambda>face. length (f_loops face) = 3 \<and> list_all (\<lambda>v. v \<in> set vs) (f_verts face)) fs"

definition keeps_material_index :: "Host \<Rightarrow> Mesh \<Rightarrow> bool" where
  "keeps_material_index host mesh =
     list_all (\<lambda>face. f_material_index face \<in> f_material_index ` set (bm_faces (me_geometry mesh)))
       (triangulated_faces host mesh)"

definition submesh_faces :: "SubMesh \<Rightarrow> BMFace list" where
  "submesh_faces m = bm_faces (fst (snd m))"

definition in_some_face :: "BMFace list \<Rightarrow> BMVert \<Rightarrow> bool" where
  "in_some_face fs v = (\<exists>face\<in>set fs. v \<in> set (f_verts face))"

section \<open>Python helpers\<close>

text \<open>Sequencing of computations that may raise.\<close>

definition ebind :: "error + 'a \<Rightarrow> ('a \<Rightarrow> error + 'b) \<Rightarrow> error + 'b" where
  "ebind m f = (case m of Inl e \<Rightarrow> Inl e | Inr x \<Rightarrow> f x)"

text \<open>A \<open>for\<close> loop over a list whose body may raise: the first exception ends it.\<close>

fun efold :: "('a \<Rightarrow> 's \<Rightarrow> error + 's) \<Rightarrow> 'a list \<Rightarrow> 's \<Rightarrow> error + 's" where
  "efold f [] s = Inr s"
| "efold f (x # xs) s = ebind (f x s) (efold f xs)"

text \<open>\<open>xs[i]\<close> and \<open>xs[i] = v\<close> for an index that is not negative.\<close>

definition list_get :: "'a list \<Rightarrow> nat \<Rightarrow> error + 'a" where
  "list_get xs i = (if i < length xs then Inr (xs ! i) else Inl IndexError)"

definition list_assign :: "'a list \<Rightarrow> nat \<Rightarrow> 'a \<Rightarrow> error + 'a list" where
  "list_assign xs i v = (if i < length xs then Inr (xs[i := v]) else Inl IndexError)"

text \<open>\<open>xs[i]\<close> for a Python integer: a negative index counts from the end.\<close>

definition list_get_int :: "'a list \<Rightarrow> int \<Rightarrow> error + 'a" where
  "list_get_int xs i =
     (if 0 \<le> i \<and> i < int (length xs) then Inr (xs ! nat i)
      else if i < 0 \<and> - int (length xs) \<le> i then Inr (xs ! nat (int (length xs) + i))
      else Inl IndexError)"

text \<open>\<open>d[k]\<close> for a dictionary kept as an association list in insertion order.\<close>

definition dict_get :: "('k \<times> 'v) list \<Rightarrow> 'k \<Rightarrow> error + 'v" where
  "dict_get d k = (case map_of d k of None \<Rightarrow> Inl KeyError | Some v \<Rightarrow> Inr v)"

text \<open>\<open>xs.index(x)\<close>: the first position of \<open>x\<close>, \<open>ValueError\<close> when there is none.\<close>

fun index_of :: "'a list \<Rightarrow> 'a \<Rightarrow> nat" where
  "index_of [] x = 0"
| "index_of (y # ys) x = (if x = y then 0 else Suc (index_of ys x))"

definition list_index :: "'a list \<Rightarrow> 'a \<Rightarrow> error + nat" where
  "list_index xs x = (if x \<in> set xs then Inr (index_of xs x) else Inl ValueError)"

text \<open>\<open>int(x)\<close> of a float: truncation towards zero.\<close>

definition py_int :: "real \<Rightarrow> int" where
  "py_int x = (if 0 \<le> x then \<lfloor>x\<rfloor> else \<lceil>x\<rceil>)"

text \<open>\<open>os.path.join(a, b)\<close> of \<open>posixpath\<close>.\<close>

definition path_join :: "string \<Rightarrow> string \<Rightarrow> string" where
  "path_join a b =
     (if b \<noteq> [] \<and> hd b = CHR ''/'' then b
      else if a = [] \<or> last a = CHR ''/'' then a @ b
      else a @ ''/'' @ b)"

section \<open>Attribute flattener: \<open>MeshParser\<close>\<close>

text \<open>
  A bound of the bounding box: \<open>float('inf')\<close> or a finite float. \<open>py_min a b\<close> and
  \<open>py_max a b\<close> are Python's \<open>min(a, b)\<close> and \<open>max(a, b)\<close>, which keep the first
  argument unless the second is strictly smaller (greater).
\<close>

datatype bound = Inf | Fin real

fun bound_less :: "bound \<Rightarrow> bound \<Rightarrow> bool" where
  "bound_less (Fin a) (Fin b) = (a < b)"
| "bound_less (Fin a) Inf = True"
| "bound_less Inf b = False"

definition py_min :: "bound \<Rightarrow> bound \<Rightarrow> bound" where
  "py_min a b = (if bound_less b a then b else a)"

definition py_max :: "bound \<Rightarrow> bound \<Rightarrow> bound" where
  "py_max a b = (if bound_less a b then b else a)"

record AABB =
  aabb_min :: "bound list"
  aabb_max :: "bound list"

text \<open>The body of the loop over \<open>face.loops\<close> in \<open>calculate_bounding_box\<close>.\<close>

definition bounding_box_step :: "BMLoop \<Rightarrow> bound list \<times> bound list \<Rightarrow> bound list \<times> bound list" where
  "bounding_box_step loop = (\<lambda>(minpos, maxpos).
     let vert = l_vert loop;
         x = fst (v_co vert); y = fst (snd (v_co vert)); z = snd (snd (v_co vert));
         minpos = minpos[0 := py_min (Fin x) (minpos ! 0)];
         minpos = minpos[1 := py_min (Fin y) (minpos ! 1)];
         minpos = minpos[2 := py_min (Fin z) (minpos ! 2)];
         maxpos = maxpos[0 := py_max (Fin x) (minpos ! 0)];
         maxpos = maxpos[1 := py_max (Fin y) (minpos ! 1)];
         maxpos = maxpos[2 := py_max (Fin z) (minpos ! 2)]
     in (minpos, maxpos))"

definition calculate_bounding_box :: "BMesh \<Rightarrow> AABB" where
  "calculate_bounding_box mesh =
     (let minpos = [Inf, Inf, Inf]; maxpos = [Inf, Inf, Inf]
      in if bm_faces mesh \<noteq> []
         then (let (minpos, maxpos) =
                     fold (\<lambda>face. fold bounding_box_step (f_loops face)) (bm_faces mesh) (minpos, maxpos)
               in \<lparr>aabb_min = minpos, aabb_max = maxpos\<rparr>)
         else \<lparr>aabb_min = [Fin 0, Fin 0, Fin 0], aabb_max = [Fin 0, Fin 0, Fin 0]\<rparr>)"

text \<open>
  The mesh datablock \<open>TmpMesh\<close> that \<open>update_mesh_data\<close> reads, as Blender's
  \<open>bmesh.to_mesh\<close> and \<open>calc_normals_split\<close> fill it: the loops are the loops of the
  faces in face order, loop \<open>k\<close> has index \<open>k\<close>, every UV layer and every vertex-colour
  layer has one entry for each loop.
\<close>

record MeshLoop =
  lp_index :: nat
  lp_vertex_index :: nat
  lp_normal :: vec3

record TmpMesh =
  tm_loops :: "MeshLoop list"
  tm_vertices :: "vec3 list"
  tm_uv_layers :: "(string \<times> vec2 list) list"
  tm_vertex_colors :: "vec3 list list"
  tm_active_index :: int

definition bm_loops :: "BMesh \<Rightarrow> BMLoop list" where
  "bm_loops bm = concat (map f_loops (bm_faces bm))"

definition to_mesh :: "Host \<Rightarrow> BMesh \<Rightarrow> TmpMesh" where
  "to_mesh host bm =
     \<lparr>tm_loops = map (\<lambda>(k, l). \<lparr>lp_index = k,
                                  lp_vertex_index = index_of (bm_verts bm) (l_vert l),
                                  lp_normal = calc_normals_split host bm k\<rparr>)
                     (enumerate 0 (bm_loops bm)),
      tm_vertices = map v_co (bm_verts bm),
      tm_uv_layers = map (\<lambda>(i, name). (name, map (\<lambda>l. l_uv l ! i) (bm_loops bm)))
                         (enumerate 0 (bm_uv_layers bm)),
      tm_vertex_colors = map (\<lambda>j. map (\<lambda>l. l_color l ! j) (bm_loops bm)) [0..<bm_vertex_colors bm],
      tm_active_index = bm_active_index bm\<rparr>"

text \<open>A slot of a flattened array: still \<open>None\<close>, a float or an integer.\<close>

datatype scalar = PyNone | PyFloat real | PyInt int

text \<open>The keys of \<open>vert_data\<close>; \<open>TexCoord N\<close> is the key \<open>'texCoord{N}'\<close>.\<close>

datatype AttrKey = Position | Normal | Color | TexCoord nat

record VertAttr =
  va_type :: string
  va_components :: nat
  va_data :: "scalar list"

record LoopState =
  st_indices :: "nat list"
  st_vertposlist :: "scalar list"
  st_vertnormallist :: "scalar list"
  st_uvdata :: "(string \<times> scalar list) list"
  st_vertcollist :: "scalar list option"

text \<open>The three assignments \<open>lst[3*i] = x; lst[3*i+1] = y; lst[3*i+2] = z\<close>.\<close>

definition assign3 :: "scalar list \<Rightarrow> nat \<Rightarrow> vec3 \<Rightarrow> error + scalar list" where
  "assign3 lst i v =
     ebind (list_assign lst (3 * i) (PyFloat (fst v))) (\<lambda>lst.
     ebind (list_assign lst (3 * i + 1) (PyFloat (fst (snd v)))) (\<lambda>lst.
     list_assign lst (3 * i + 2) (PyFloat (snd (snd v)))))"

text \<open>The body of \<open>for uv_lay in uv_layers.keys()\<close>.\<close>

definition uv_step ::
    "TmpMesh \<Rightarrow> MeshLoop \<Rightarrow> string \<Rightarrow> (string \<times> scalar list) list
       \<Rightarrow> error + (string \<times> scalar list) list" where
  "uv_step mesh loop uv_lay uvdata =
     ebind (dict_get (tm_uv_layers mesh) uv_lay) (\<lambda>data.
     ebind (list_get data (lp_index loop)) (\<lambda>uv_coords.
     ebind (dict_get uvdata uv_lay) (\<lambda>lst.
     ebind (list_assign lst (2 * lp_index loop) (PyFloat (fst uv_coords))) (\<lambda>lst.
     ebind (list_assign lst (2 * lp_index loop + 1) (PyFloat (snd uv_coords))) (\<lambda>lst.
     Inr (AList.update uv_lay lst uvdata))))))"

text \<open>The four assignments to \<open>vertcollist\<close>, made when there is a colour layer.\<close>

definition col_step :: "vec3 list option \<Rightarrow> MeshLoop \<Rightarrow> scalar list option \<Rightarrow> error + scalar list option" where
  "col_step col_data loop vertcollist =
     (case col_data of
        None \<Rightarrow> Inr vertcollist
      | Some cd \<Rightarrow>
          ebind (list_get cd (lp_index loop)) (\<lambda>col.
          (case vertcollist of
             None \<Rightarrow> Inr None
           | Some lst \<Rightarrow>
               ebind (list_assign lst (4 * lp_index loop) (PyInt (py_int (fst col * 255)))) (\<lambda>lst.
               ebind (list_assign lst (4 * lp_index loop + 1) (PyInt (py_int (fst (snd col) * 255)))) (\<lambda>lst.
               ebind (list_assign lst (4 * lp_index loop + 2) (PyInt (py_int (snd (snd col) * 255)))) (\<lambda>lst.
               ebind (list_assign lst (4 * lp_index loop + 3) (PyInt 255)) (\<lambda>lst.
               Inr (Some lst))))))))"

text \<open>The body of the second \<open>for loop in mesh.loops\<close>.\<close>

definition loop_step :: "TmpMesh \<Rightarrow> vec3 list option \<Rightarrow> MeshLoop \<Rightarrow> LoopState \<Rightarrow> error + LoopState" where
  "loop_step mesh col_data loop st =
     ebind (list_get (tm_vertices mesh) (lp_vertex_index loop)) (\<lambda>vert.
     ebind (efold (uv_step mesh loop) (map fst (tm_uv_layers mesh)) (st_uvdata st)) (\<lambda>uvdata.
     ebind (assign3 (st_vertposlist st) (lp_index loop) vert) (\<lambda>vertposlist.
     ebind (assign3 (st_vertnormallist st) (lp_index loop) (lp_normal loop)) (\<lambda>vertnormallist.
     ebind (col_step col_data loop (st_vertcollist st)) (\<lambda>vertcollist.
     Inr \<lparr>st_indices = st_indices st @ [lp_index loop],
          st_vertposlist = vertposlist,
          st_vertnormallist = vertnormallist,
          st_uvdata = uvdata,
          st_vertcollist = vertcollist\<rparr>)))))"

text \<open>The loop \<open>for uv_name in uvdata\<close> that names the UV arrays \<open>texCoord{N}\<close>.\<close>

definition texcoord_step ::
    "string list \<Rightarrow> string \<times> scalar list \<Rightarrow> (AttrKey \<times> VertAttr) list
       \<Rightarrow> error + (AttrKey \<times> VertAttr) list" where
  "texcoord_step uv_list = (\<lambda>(uv_name, data) vert_data.
     ebind (list_index uv_list uv_name) (\<lambda>uv_index.
     Inr (AList.update (TexCoord uv_index)
            \<lparr>va_type = ''float32'', va_components = 2, va_data = data\<rparr> vert_data)))"

text \<open>\<open>update_mesh_data\<close> returns \<open>self['indices']\<close> and \<open>self.vert_data\<close>.\<close>

definition update_mesh_data ::
    "Host \<Rightarrow> BMesh \<Rightarrow> string list \<Rightarrow> error + nat list \<times> (AttrKey \<times> VertAttr) list" where
  "update_mesh_data host self_mesh uv_list =
     (let mesh = to_mesh host self_mesh;
          numloops = length (tm_loops mesh);
          numverts = numloops;
          vertposlist = replicate (numverts * 3) PyNone;
          vertnormallist = replicate (numverts * 3) PyNone;
          uvdata = fold (\<lambda>i d. AList.update i (replicate (numverts * 2) PyNone) d)
                        (map fst (tm_uv_layers mesh)) [];
          col_layer = tm_active_index mesh
      in ebind (if col_layer \<noteq> -1
                then ebind (list_get_int (tm_vertex_colors mesh) col_layer) (\<lambda>d. Inr (Some d))
                else Inr None) (\<lambda>col_data.
         let vertcollist = (if col_layer \<noteq> -1 then Some (replicate (numverts * 4) PyNone) else None)
         in ebind (efold (loop_step mesh col_data) (tm_loops mesh)
                     \<lparr>st_indices = [], st_vertposlist = vertposlist,
                      st_vertnormallist = vertnormallist, st_uvdata = uvdata,
                      st_vertcollist = vertcollist\<rparr>) (\<lambda>st.
            let vert_data =
                  [(Position, \<lparr>va_type = ''float32'', va_components = 3, va_data = st_vertposlist st\<rparr>),
                   (Normal, \<lparr>va_type = ''float32'', va_components = 3, va_data = st_vertnormallist st\<rparr>)];
                vert_data = (case st_vertcollist st of
                               None \<Rightarrow> vert_data
                             | Some lst \<Rightarrow> AList.update Color
                                 \<lparr>va_type = ''uint8'', va_components = 4, va_data = lst\<rparr> vert_data)
            in ebind (efold (texcoord_step uv_list) (st_uvdata st) vert_data) (\<lambda>vert_data.
               Inr (st_indices st, vert_data)))))"

text \<open>The dictionary a \<open>MeshParser\<close> is, and its attribute \<open>vert_data\<close>.\<close>

record MeshParser =
  mp_vertices :: nat
  mp_indices :: "nat list"
  mp_aabb :: AABB
  mp_type :: string
  mp_base :: nat
  mp_count :: nat
  mp_vert_data :: "(AttrKey \<times> VertAttr) list"

definition MeshParser_init :: "Host \<Rightarrow> SubMesh \<Rightarrow> nat \<Rightarrow> string list \<Rightarrow> error + MeshParser" where
  "MeshParser_init host mesh id_num uv_list =
     (let self_mesh = fst (snd mesh);
          aabb = calculate_bounding_box self_mesh
      in ebind (update_mesh_data host self_mesh uv_list) (\<lambda>(indices, vert_data).
         Inr \<lparr>mp_vertices = id_num, mp_indices = indices, mp_aabb = aabb,
              mp_type = ''triangles'', mp_base = 0, mp_count = length indices,
              mp_vert_data = vert_data\<rparr>))"

section \<open>Hierarchy exporter: \<open>HeirachyExporter\<close>\<close>

text \<open>\<open>ObjectHeirachy\<close>: the objects exported to one file, and the name of that file.\<close>

record ObjectHeirachy =
  h_name :: string
  h_objects :: "Object list"

record PathData =
  pd_mesh :: string
  pd_mat :: string
  pd_img :: string
  pd_name :: string

text \<open>What an export does to the file system, in order.\<close>

datatype Effect = WriteFile string | CopyImage string

definition generate_uv_list :: "ObjectHeirachy \<Rightarrow> string list" where
  "generate_uv_list heirachy =
     fold (\<lambda>obj layer_names.
            (case ob_data obj of
               MeshData data \<Rightarrow> fold (\<lambda>layer names. names @ [layer]) (me_uv_layers data) layer_names
             | OtherData _ \<Rightarrow> layer_names))
          (h_objects heirachy) []"

text \<open>
  The placeholder mesh built at the start of \<open>generate_mesh_list\<close>: three vertices at the
  origin and one face on them, no material and no layer.
\<close>

definition EMPTY_MESH :: "Host \<Rightarrow> Mesh" where
  "EMPTY_MESH host =
     (let v1 = \<lparr>v_id = 0, v_co = (0, 0, 0)\<rparr>;
          v2 = \<lparr>v_id = 1, v_co = (0, 0, 0)\<rparr>;
          v3 = \<lparr>v_id = 2, v_co = (0, 0, 0)\<rparr>;
          corner = (\<lambda>v. \<lparr>l_vert = v, l_uv = [], l_color = []\<rparr>)
      in \<lparr>me_name = new_mesh_name host,
          me_materials = [],
          me_geometry = \<lparr>bm_verts = [v1, v2, v3],
                         bm_faces = [\<lparr>f_loops = [corner v1, corner v2, corner v3],
                                      f_material_index = 0\<rparr>],
                         bm_uv_layers = [],
                         bm_vertex_colors = 0,
                         bm_active_index = -1\<rparr>\<rparr>)"

text \<open>The body of the first loop of \<open>generate_mesh_list\<close>, which fills \<open>raw_meshes\<close>.\<close>

definition raw_meshes_step ::
    "Mesh \<Rightarrow> Object \<Rightarrow> (string \<times> Object list) list \<Rightarrow> (string \<times> Object list) list" where
  "raw_meshes_step empty_mesh obj raw_meshes =
     (let data = (case ob_data obj of MeshData m \<Rightarrow> m | OtherData _ \<Rightarrow> empty_mesh)
      in case map_of raw_meshes (me_name data) of
           None \<Rightarrow> AList.update (me_name data) [obj] raw_meshes
         | Some insts \<Rightarrow> AList.update (me_name data) (insts @ [obj]) raw_meshes)"

definition generate_mesh_list :: "Host \<Rightarrow> ObjectHeirachy \<Rightarrow> error + SubMesh list" where
  "generate_mesh_list host heirachy =
     (let empty_mesh = EMPTY_MESH host;
          meshes = (bpy_data_meshes host)(me_name empty_mesh \<mapsto> empty_mesh);
          raw_meshes = fold (raw_meshes_step empty_mesh) (h_objects heirachy) []
      in efold (\<lambda>(mesh_name, insts) mesh_list.
                  (case meshes mesh_name of
                     None \<Rightarrow> Inl KeyError
                   | Some mesh \<Rightarrow> Inr (mesh_list @ separate_mesh_by_material host mesh insts)))
               raw_meshes [])"

text \<open>
  \<open>mapping_list\<close> of \<open>export_mappings\<close>: every sub-mesh once for each of its instances.
\<close>

definition mapping_list :: "SubMesh list \<Rightarrow> SubMesh list" where
  "mapping_list mesh_list = concat (map (\<lambda>mesh. map (\<lambda>inst. mesh) (snd (snd mesh))) mesh_list)"

text \<open>\<open>hasattr(data, 'materials') and data.materials\<close>, with the list when it holds.\<close>

definition data_materials :: "ObjData \<Rightarrow> Material list option" where
  "data_materials data =
     (case data of
        MeshData m \<Rightarrow> (if me_materials m \<noteq> [] then Some (me_materials m) else None)
      | OtherData None \<Rightarrow> None
      | OtherData (Some ms) \<Rightarrow> (if ms \<noteq> [] then Some ms else None))"

record MappingState =
  ms_mat_id :: "nat option"
  ms_materials :: "(string \<times> Material) list"
  ms_mapping :: "string list"
  ms_effects :: "Effect list"

text \<open>
  The body of \<open>for mesh_map in mapping_list\<close>. The variable \<open>mat_id\<close> lives on from one
  pass to the next, and is unbound until a sub-mesh with a face has been met.
\<close>

definition mapping_step :: "string \<Rightarrow> PathData \<Rightarrow> SubMesh \<Rightarrow> MappingState \<Rightarrow> error + MappingState" where
  "mapping_step mesh_to_material_path path_data mesh_map st =
     (let mat_id = (case bm_faces (fst (snd mesh_map)) of
                      [] \<Rightarrow> ms_mat_id st
                    | face # _ \<Rightarrow> Some (f_material_index face))
      in ebind (list_get (snd (snd mesh_map)) 0) (\<lambda>inst.
         (case data_materials (ob_data inst) of
            Some materials \<Rightarrow>
              (case mat_id of
                 None \<Rightarrow> Inl UnboundLocalError
               | Some i \<Rightarrow>
                   ebind (list_get materials i) (\<lambda>mat.
                   Inr \<lparr>ms_mat_id = mat_id,
                        ms_materials = AList.update (mat_name mat) mat (ms_materials st),
                        ms_mapping = ms_mapping st
                          @ [path_join mesh_to_material_path (mat_name mat @ ''.json'')],
                        ms_effects = ms_effects st\<rparr>))
          | None \<Rightarrow>
              Inr \<lparr>ms_mat_id = mat_id,
                   ms_materials = ms_materials st,
                   ms_mapping = ms_mapping st @ [path_join mesh_to_material_path (''None'' @ ''.json'')],
                   ms_effects = ms_effects st
                     @ [WriteFile (path_join (pd_mat path_data) (''None'' @ ''.json''))]\<rparr>)))"

text \<open>
  \<open>export_mappings\<close> returns the material list; the model also returns the \<open>'mapping'\<close>
  list of the document it writes and the files written.
\<close>

definition export_mappings ::
    "Host \<Rightarrow> ObjectHeirachy \<Rightarrow> SubMesh list \<Rightarrow> PathData
       \<Rightarrow> error + Material list \<times> string list \<times> Effect list" where
  "export_mappings host heirachy mesh_list path_data =
     (let mesh_to_material_path = relpath host (pd_mat path_data) (pd_mesh path_data)
      in ebind (efold (mapping_step mesh_to_material_path path_data) (mapping_list mesh_list)
                  \<lparr>ms_mat_id = None, ms_materials = [], ms_mapping = [], ms_effects = []\<rparr>) (\<lambda>st.
         let file_name = path_join (pd_mesh path_data) (h_name heirachy @ ''.mapping.json'')
         in Inr (map snd (ms_materials st), ms_mapping st, ms_effects st @ [WriteFile file_name])))"

text \<open>
  \<open>MaterialExporter\<close>. Of the loop over the texture slots the model keeps what decides
  whether the material file is written: a slot that is used has its image copied and its
  UV layer looked up in \<open>uv_list\<close>. The fields of the descriptor are left out, and the
  file operations are taken to succeed. The result is the files touched.
\<close>

definition parse_images_step ::
    "Material \<Rightarrow> string list \<Rightarrow> nat \<times> TextureSlot option \<Rightarrow> Effect list \<Rightarrow> error + Effect list" where
  "parse_images_step material uv_list = (\<lambda>(tex_id, slot) effects.
     (case slot of
        None \<Rightarrow> Inr effects
      | Some tex \<Rightarrow>
          if tex_type tex \<noteq> ''IMAGE'' then Inr effects
          else ebind (list_get (mat_use_textures material) tex_id) (\<lambda>used.
               if \<not> used then Inr effects
               else ebind (if tex_uv_layer tex \<noteq> [] then list_index uv_list (tex_uv_layer tex)
                           else Inr 0) (\<lambda>uv_layer.
                    Inr (effects @ [CopyImage (tex_name tex)])))))"

definition MaterialExporter_init :: "Material \<Rightarrow> string list \<Rightarrow> PathData \<Rightarrow> error + Effect list" where
  "MaterialExporter_init material uv_list path_data =
     ebind (efold (parse_images_step material uv_list)
              (enumerate 0 (mat_texture_slots material)) []) (\<lambda>effects.
     Inr (effects @ [WriteFile (path_join (pd_mat path_data) (mat_name material @ ''.json''))]))"

record Instance =
  in_node :: nat
  in_mesh :: nat

definition generate_instance_data :: "SubMesh list \<Rightarrow> Instance list" where
  "generate_instance_data mesh_list =
     snd (fold (\<lambda>(mesh_id, mesh).
                  fold (\<lambda>inst (node_id, instance_data).
                          (node_id + 1, instance_data @ [\<lparr>in_node = node_id, in_mesh = mesh_id\<rparr>]))
                       (snd (snd mesh)))
               (enumerate 0 mesh_list) (1, []))"

record Node =
  nd_name :: string
  nd_position :: "real list"
  nd_rotation :: "real list"
  nd_scale :: "real list"

definition list_of_vec :: "vec3 \<Rightarrow> real list" where
  "list_of_vec v = [fst v, fst (snd v), snd (snd v)]"

text \<open>\<open>math.pi\<close>: the float nearest to the circle constant, as Python prints it.\<close>

definition math_pi :: real where
  "math_pi = 3141592653589793 / 1000000000000000"

text \<open>
  The dictionary built for one instance in \<open>generate_node_data\<close>. The local variable
  \<open>scale\<close> is assigned in both branches and not read: the record takes
  \<open>instance.scale\<close>.
\<close>

definition node_dict :: "Object \<Rightarrow> Node" where
  "node_dict inst =
     (let (position, corrected_rotation, scale) =
            (if ob_parent inst \<noteq> None
             then (list_of_vec (ob_translation inst),
                   map (\<lambda>a. a * (180 / math_pi)) (list_of_vec (ob_euler inst)),
                   list_of_vec (ob_to_scale inst))
             else ([0, 0, 0], [0, 0, 0], [1, 1, 1]))
      in \<lparr>nd_name = ob_name inst,
          nd_position = position,
          nd_rotation = corrected_rotation,
          nd_scale = list_of_vec (ob_scale inst)\<rparr>)"

definition parent_id :: "string list \<Rightarrow> Object \<Rightarrow> int" where
  "parent_id node_name_list inst =
     (case ob_parent inst of
        Some parent_name \<Rightarrow>
          if parent_name \<in> set node_name_list
          then int (index_of node_name_list parent_name) + 1
          else 0
      | None \<Rightarrow> 0)"

text \<open>The instances in enumeration order: meshes outer loop, instances inner loop.\<close>

definition instances :: "SubMesh list \<Rightarrow> Object list" where
  "instances mesh_list = concat (map (\<lambda>mesh. snd (snd mesh)) mesh_list)"

definition generate_node_data :: "SubMesh list \<Rightarrow> Node list \<times> int list" where
  "generate_node_data mesh_list =
     (let node_data = map node_dict (instances mesh_list);
          node_name_list = map nd_name node_data;
          parent_list = map (parent_id node_name_list) (instances mesh_list)
      in (node_data, parent_list))"

record MainDocument =
  md_version :: nat
  md_nodes :: "Node list"
  md_parents :: "int list"
  md_vertices :: "(AttrKey \<times> VertAttr) list list"
  md_meshes :: "MeshParser list"
  md_meshInstances :: "Instance list"

record Export =
  ex_main :: MainDocument
  ex_mapping :: "string list"
  ex_materials :: "Material list"
  ex_effects :: "Effect list"

text \<open>
  \<open>HeirachyExporter.__init__\<close>. The result is the main document, the \<open>'mapping'\<close>
  list of the mapping document, the materials handed to \<open>MaterialExporter\<close> and the
  files written, in order.
\<close>

definition HeirachyExporter_init :: "Host \<Rightarrow> ObjectHeirachy \<Rightarrow> PathData \<Rightarrow> error + Export" where
  "HeirachyExporter_init host heirachy path_data =
     (let uv_list = generate_uv_list heirachy
      in ebind (generate_mesh_list host heirachy) (\<lambda>mesh_list.
         ebind (efold (\<lambda>(mesh_id, mesh) mesh_data_list.
                         ebind (MeshParser_init host mesh mesh_id uv_list) (\<lambda>m.
                         Inr (mesh_data_list @ [m])))
                      (enumerate 0 mesh_list) []) (\<lambda>mesh_data_list.
         let (node_data, parents) = generate_node_data mesh_list
         in ebind (export_mappings host heirachy mesh_list path_data) (\<lambda>(material_list, mapping, effects).
            ebind (efold (\<lambda>mat effects.
                            ebind (MaterialExporter_init mat uv_list path_data) (\<lambda>written.
                            Inr (effects @ written)))
                         material_list effects) (\<lambda>effects.
            let root = \<lparr>nd_name = ''RootNode'', nd_position = [0, 0, 0],
                        nd_rotation = [0, 0, 0], nd_scale = [1, 1, 1]\<rparr>;
                output = \<lparr>md_version = 2,
                          md_nodes = [root] @ node_data,
                          md_parents = [-1] @ parents,
                          md_vertices = map mp_vert_data mesh_data_list,
                          md_meshes = mesh_data_list,
                          md_meshInstances = generate_instance_data mesh_list\<rparr>;
                new_mesh_path = path_join (pd_mesh path_data) (h_name heirachy @ ''.json'')
            in Inr \<lparr>ex_main = output, ex_mapping = mapping, ex_materials = material_list,
                    ex_effects = effects @ [WriteFile new_mesh_path]\<rparr>)))))"

section \<open>Predicates used to state the properties\<close>

definition is_float :: "scalar \<Rightarrow> bool" where
  "is_float x = (case x of PyFloat _ \<Rightarrow> True | _ \<Rightarrow> False)"

definition is_int :: "scalar \<Rightarrow> bool" where
  "is_int x = (case x of PyInt _ \<Rightarrow> True | _ \<Rightarrow> False)"

text \<open>
  The active vertex-colour layer of a mesh, as Blender keeps it: \<open>-1\<close> when the mesh has
  no colour layer, the index of one of its layers otherwise.
\<close>

definition color_layer_ok :: "BMesh \<Rightarrow> bool" where
  "color_layer_ok bm =
     (if bm_vertex_colors bm = 0 then bm_active_index bm = -1
      else 0 \<le> bm_active_index bm \<and> bm_active_index bm < int (bm_vertex_colors bm))"

text \<open>
  The path of the file of a material under a directory, and of the dummy material
  \<open>None\<close>.
\<close>

definition material_path :: "string \<Rightarrow> Material \<Rightarrow> string" where
  "material_path dir mat = path_join dir (mat_name mat @ ''.json'')"

definition dummy_path :: "string \<Rightarrow> string" where
  "dummy_path dir = path_join dir ''None.json''"

text \<open>
  What a mapping entry says of its sub-mesh: the sub-mesh has an instance; when the data of
  its first instance has no material, the entry is the path of the dummy; when it has
  materials and the sub-mesh has a face, the entry is the path of the material at the
  material index of the first face.
\<close>

definition mapping_entry :: "string \<Rightarrow> SubMesh \<Rightarrow> string \<Rightarrow> bool" where
  "mapping_entry dir mesh_map path =
     (snd (snd mesh_map) \<noteq> [] \<and>
      (case data_materials (ob_data (hd (snd (snd mesh_map)))) of
         None \<Rightarrow> path = dummy_path dir
       | Some materials \<Rightarrow>
           (case bm_faces (fst (snd mesh_map)) of
              [] \<Rightarrow> True
            | face # _ \<Rightarrow> f_material_index face < length materials
                          \<and> path = material_path dir (materials ! f_material_index face))))"



text \<open>
  \<open>n\<close> is the first position of \<open>x\<close> in \<open>xs\<close>, and the UV layer names an object
  contributes to \<open>generate_uv_list\<close>.
\<close>

definition first_position :: "'a list \<Rightarrow> 'a \<Rightarrow> nat \<Rightarrow> bool" where
  "first_position xs x n = (n < length xs \<and> xs ! n = x \<and> x \<notin> set (take n xs))"

definition object_uv_layers :: "Object \<Rightarrow> string list" where
  "object_uv_layers obj = (case ob_data obj of MeshData data \<Rightarrow> me_uv_layers data | OtherData _ \<Rightarrow> [])"

section \<open>Invariants of the flattening loops\<close>

text \<open>An array of \<open>n\<close> groups of \<open>c\<close> slots whose first \<open>k\<close> groups are filled.\<close>

definition filled :: "(scalar \<Rightarrow> bool) \<Rightarrow> nat \<Rightarrow> nat \<Rightarrow> nat \<Rightarrow> scalar list \<Rightarrow> bool" where
  "filled ok c n k lst = (length lst = c * n \<and> (\<forall>j < c * k. ok (lst ! j)))"

text \<open>The colour array: absent without a colour layer, else filled for \<open>k\<close> corners.\<close>

definition col_filled :: "vec3 list option \<Rightarrow> nat \<Rightarrow> nat \<Rightarrow> scalar list option \<Rightarrow> bool" where
  "col_filled col_data n k vertcollist =
     (case col_data of
        None \<Rightarrow> vertcollist = None
      | Some cd \<Rightarrow> length cd = n \<and> (\<exists>lst. vertcollist = Some lst \<and> filled is_int 4 n k lst))"

text \<open>The UV arrays: the keys \<open>K\<close>, each array filled for \<open>k\<close> corners, and for one corner
  more under the keys \<open>D\<close> already handled.\<close>

definition uv_filled :: "string set \<Rightarrow> nat \<Rightarrow> nat \<Rightarrow> string set \<Rightarrow> (string \<times> scalar list) list \<Rightarrow> bool" where
  "uv_filled K n k D uvdata =
     (dom (map_of uvdata) = K \<and>
      (\<forall>name d. map_of uvdata name = Some d \<longrightarrow>
         filled is_float 2 n (if name \<in> D then Suc k else k) d))"

text \<open>The arrays after \<open>k\<close> passes of the loop over \<open>mesh.loops\<close>.\<close>

definition loop_inv :: "string set \<Rightarrow> vec3 list option \<Rightarrow> nat \<Rightarrow> nat \<Rightarrow> LoopState \<Rightarrow> bool" where
  "loop_inv K col_data n k st =
     (st_indices st = [0..<k] \<and>
      filled is_float 3 n k (st_vertposlist st) \<and>
      filled is_float 3 n k (st_vertnormallist st) \<and>
      uv_filled K n k {} (st_uvdata st) \<and>
      distinct (map fst (st_uvdata st)) \<and>
      col_filled col_data n k (st_vertcollist st))"

text \<open>What \<open>to_mesh\<close> guarantees of the mesh the loop reads.\<close>

definition tm_ok :: "TmpMesh \<Rightarrow> nat \<Rightarrow> bool" where
  "tm_ok mesh n =
     (length (tm_loops mesh) = n \<and>
      (\<forall>i < n. lp_index (tm_loops mesh ! i) = i \<and>
               lp_vertex_index (tm_loops mesh ! i) < length (tm_vertices mesh)) \<and>
      (\<forall>name \<in> set (map fst (tm_uv_layers mesh)).
         \<exists>data. map_of (tm_uv_layers mesh) name = Some data \<and> length data = n) \<and>
      (\<forall>cd \<in> set (tm_vertex_colors mesh). length cd = n))"

text \<open>What \<open>update_mesh_data\<close> returns for a triangulated sub-mesh.\<close>

definition flattened :: "BMesh \<Rightarrow> string list \<Rightarrow> nat list \<times> (AttrKey \<times> VertAttr) list \<Rightarrow> bool" where
  "flattened bm uv_list r =
     (let indices = fst r; vert_data = snd r; n = length indices in
      indices = [0..<3 * length (bm_faces bm)] \<and>
      (\<exists>d. map_of vert_data Position = Some \<lparr>va_type = ''float32'', va_components = 3, va_data = d\<rparr>
           \<and> length d = 3 * n \<and> list_all is_float d) \<and>
      (\<exists>d. map_of vert_data Normal = Some \<lparr>va_type = ''float32'', va_components = 3, va_data = d\<rparr>
           \<and> length d = 3 * n \<and> list_all is_float d) \<and>
      list_all (\<lambda>name. \<exists>d. map_of vert_data (TexCoord (index_of uv_list name))
                              = Some \<lparr>va_type = ''float32'', va_components = 2, va_data = d\<rparr>
                          \<and> length d = 2 * n \<and> list_all is_float d) (bm_uv_layers bm) \<and>
      (if bm_active_index bm = -1 then map_of vert_data Color = None
       else \<exists>d. map_of vert_data Color = Some \<lparr>va_type = ''uint8'', va_components = 4, va_data = d\<rparr>
                \<and> length d = 4 * n \<and> list_all is_int d))"

section \<open>Auxiliary definitions for the hierarchy\<close>

text \<open>The mesh ids of the instances in enumeration order.\<close>

definition mesh_ids :: "nat \<Rightarrow> SubMesh list \<Rightarrow> nat list" where
  "mesh_ids k mesh_list =
     concat (map (\<lambda>(mesh_id, mesh). replicate (length (snd (snd mesh))) mesh_id) (enumerate k mesh_list))"

text \<open>The mesh datablock the exporter takes for an object.\<close>

definition data_of :: "Host \<Rightarrow> Object \<Rightarrow> Mesh" where
  "data_of host obj = (case ob_data obj of MeshData m \<Rightarrow> m | OtherData _ \<Rightarrow> EMPTY_MESH host)"


section \<open>Example scenes\<close>

text \<open>
  A triangulation for the examples: a fan from the first corner of each face, every
  triangle with the material index of its face.
\<close>

fun fan :: "BMLoop \<Rightarrow> BMLoop list \<Rightarrow> nat \<Rightarrow> BMFace list" where
  "fan l0 (a # b # rest) mi = \<lparr>f_loops = [l0, a, b], f_material_index = mi\<rparr> # fan l0 (b # rest) mi"
| "fan l0 rest mi = []"

definition fan_triangulate :: "BMFace list \<Rightarrow> BMFace list" where
  "fan_triangulate fs =
     concat (map (\<lambda>face. case f_loops face of [] \<Rightarrow> [] | l0 # rest \<Rightarrow> fan l0 rest (f_material_index face)) fs)"

definition vert :: "nat \<Rightarrow> vec3 \<Rightarrow> BMVert" where
  "vert i p = \<lparr>v_id = i, v_co = p\<rparr>"

definition corner :: "BMVert \<Rightarrow> BMLoop" where
  "corner v = \<lparr>l_vert = v, l_uv = [], l_color = []\<rparr>"

definition material :: "string \<Rightarrow> Material" where
  "material n = \<lparr>mat_name = n, mat_texture_slots = [], mat_use_textures = []\<rparr>"

text \<open>
  A plane of a quad in material 0 and a triangle in material 1, with a third material
  that no face uses and a vertex that no face has.
\<close>

definition plane_geometry :: BMesh where
  "plane_geometry =
     \<lparr>bm_verts = [vert 0 (0, 0, 0), vert 1 (1, 0, 0), vert 2 (1, 1, 0), vert 3 (0, 1, 0),
                  vert 4 (2, 3, 5), vert 5 (9, 9, 9)],
      bm_faces = [\<lparr>f_loops = [corner (vert 0 (0, 0, 0)), corner (vert 1 (1, 0, 0)),
                               corner (vert 2 (1, 1, 0)), corner (vert 3 (0, 1, 0))],
                   f_material_index = 0\<rparr>,
                  \<lparr>f_loops = [corner (vert 1 (1, 0, 0)), corner (vert 4 (2, 3, 5)),
                               corner (vert 2 (1, 1, 0))],
                   f_material_index = 1\<rparr>],
      bm_uv_layers = [],
      bm_vertex_colors = 0,
      bm_active_index = -1\<rparr>"

definition plane :: Mesh where
  "plane = \<lparr>me_name = ''Plane'',
            me_materials = [material ''Red'', material ''Blue'', material ''Spare''],
            me_geometry = plane_geometry\<rparr>"

text \<open>A mesh with no material, no face and one loose vertex.\<close>

definition loose :: Mesh where
  "loose = \<lparr>me_name = ''Loose'',
            me_materials = [],
            me_geometry = \<lparr>bm_verts = [vert 0 (1, 2, 3)], bm_faces = [], bm_uv_layers = [],
                           bm_vertex_colors = 0, bm_active_index = -1\<rparr>\<rparr>"

text \<open>A triangle with one UV layer and one vertex-colour layer.\<close>

definition painted :: BMesh where
  "painted =
     \<lparr>bm_verts = [vert 0 (5, 0, 0), vert 1 (1, 7, 0), vert 2 (3, 2, 9)],
      bm_faces = [\<lparr>f_loops = [\<lparr>l_vert = vert 0 (5, 0, 0), l_uv = [(0, 0)], l_color = [(1, 0, 0)]\<rparr>,
                               \<lparr>l_vert = vert 1 (1, 7, 0), l_uv = [(1, 0)], l_color = [(0, 1, 0)]\<rparr>,
                               \<lparr>l_vert = vert 2 (3, 2, 9), l_uv = [(0, 1)], l_color = [(0, 0, 1)]\<rparr>],
                   f_material_index = 0\<rparr>],
      bm_uv_layers = [''UVMap''],
      bm_vertex_colors = 1,
      bm_active_index = 0\<rparr>"

text \<open>A mesh of one triangle with no material.\<close>

definition tri_mesh :: Mesh where
  "tri_mesh = \<lparr>me_name = ''Tri'', me_materials = [], me_geometry = painted\<rparr>"

definition example_host :: Host where
  "example_host =
     \<lparr>bpy_data_meshes = map_of [(''Plane'', plane), (''Loose'', loose), (''Tri'', tri_mesh)],
      triangulate = fan_triangulate,
      calc_normals_split = (\<lambda>bm k. (0, 0, 1)),
      new_mesh_name = ''EmptyMesh'',
      relpath = (\<lambda>path start. ''../Materials'')\<rparr>"

text \<open>An empty object with no parent, scaled and moved away from the origin.\<close>

definition scaled_root :: Object where
  "scaled_root =
     \<lparr>ob_name = ''Big'', ob_parent = None, ob_data = OtherData None,
      ob_scale = (2, 3, 4), ob_translation = (5, 6, 7), ob_euler = (0, 0, 0),
      ob_to_scale = (2, 3, 4)\<rparr>"

definition example_paths :: PathData where
  "example_paths =
     \<lparr>pd_mesh = ''out/Meshes'', pd_mat = ''out/Materials'', pd_img = ''out/Images'',
      pd_name = ''scene''\<rparr>"

text \<open>
  A scene of three mesh objects: \<open>X\<close> and \<open>C\<close> share the mesh \<open>Tri\<close>, \<open>P\<close> has the
  mesh \<open>Loose\<close> and is the parent of \<open>C\<close>. The objects are listed parents first.
\<close>

definition mesh_object :: "string \<Rightarrow> string option \<Rightarrow> Mesh \<Rightarrow> Object" where
  "mesh_object n p m =
     \<lparr>ob_name = n, ob_parent = p, ob_data = MeshData m,
      ob_scale = (1, 1, 1), ob_translation = (0, 0, 1), ob_euler = (0, 0, 0),
      ob_to_scale = (1, 1, 1)\<rparr>"

definition family :: ObjectHeirachy where
  "family =
     \<lparr>h_name = ''scene'',
      h_objects = [mesh_object ''X'' None tri_mesh, mesh_object ''P'' None loose,
                   mesh_object ''C'' (Some ''P'') tri_mesh]\<rparr>"

text \<open>A scene of a mesh object and an empty.\<close>

definition mixed :: ObjectHeirachy where
  "mixed = \<lparr>h_name = ''scene'', h_objects = [mesh_object ''X'' None tri_mesh, scaled_root]\<rparr>"

text \<open>
  A scene of a curve with one material and an empty: neither is a mesh, the data of the
  curve has a material list, the empty has no data.
\<close>

definition curve_object :: Object where
  "curve_object =
     \<lparr>ob_name = ''Curve'', ob_parent = None, ob_data = OtherData (Some [material ''Paint'']),
      ob_scale = (1, 1, 1), ob_translation = (0, 0, 0), ob_euler = (0, 0, 0),
      ob_to_scale = (1, 1, 1)\<rparr>"

definition empty_object :: Object where
  "empty_object =
     \<lparr>ob_name = ''Empty'', ob_parent = None, ob_data = OtherData None,
      ob_scale = (1, 1, 1), ob_translation = (0, 0, 0), ob_euler = (0, 0, 0),
      ob_to_scale = (1, 1, 1)\<rparr>"

definition curves :: ObjectHeirachy where
  "curves = \<lparr>h_name = ''scene'', h_objects = [curve_object, empty_object]\<rparr>"

text \<open>The same two objects in the other order.\<close>

definition curves_reversed :: ObjectHeirachy where
  "curves_reversed = \<lparr>h_name = ''scene'', h_objects = [empty_object, curve_object]\<rparr>"

text \<open>A scene of the plane alone: its third material is on no face.\<close>

definition plane_scene :: ObjectHeirachy where
  "plane_scene = \<lparr>h_name = ''scene'', h_objects = [mesh_object ''Ground'' None plane]\<rparr>"

text \<open>
  A scene of two objects that share the mesh \<open>Tri\<close> and one object with the mesh \<open>Lit\<close>,
  whose only UV layer has another name.
\<close>

definition lit_mesh :: Mesh where
  "lit_mesh =
     \<lparr>me_name = ''Lit'', me_materials = [],
      me_geometry =
        \<lparr>bm_verts = [vert 0 (0, 0, 0), vert 1 (1, 0, 0), vert 2 (0, 1, 0)],
         bm_faces = [\<lparr>f_loops = [\<lparr>l_vert = vert 0 (0, 0, 0), l_uv = [(0, 0)], l_color = []\<rparr>,
                                  \<lparr>l_vert = vert 1 (1, 0, 0), l_uv = [(1, 0)], l_color = []\<rparr>,
                                  \<lparr>l_vert = vert 2 (0, 1, 0), l_uv = [(0, 1)], l_color = []\<rparr>],
                      f_material_index = 0\<rparr>],
         bm_uv_layers = [''Light''],
         bm_vertex_colors = 0,
         bm_active_index = -1\<rparr>\<rparr>"

definition studio_host :: Host where
  "studio_host = example_host\<lparr>bpy_data_meshes := map_of [(''Tri'', tri_mesh), (''Lit'', lit_mesh)]\<rparr>"

definition studio :: ObjectHeirachy where
  "studio =
     \<lparr>h_name = ''scene'',
      h_objects = [mesh_object ''X'' None tri_mesh, mesh_object ''Y'' None tri_mesh,
                   mesh_object ''L'' None lit_mesh]\<rparr>"

text \<open>
  A scene of the plane between two objects that share the mesh \<open>Tri\<close>, which has no
  material.
\<close>

definition garden :: ObjectHeirachy where
  "garden =
     \<lparr>h_name = ''scene'',
      h_objects = [mesh_object ''X'' None tri_mesh, mesh_object ''Ground'' None plane,
                   mesh_object ''Y'' None tri_mesh]\<rparr>"

section \<open>The geometry splitter partitions the triangles\<close>

lemma fold_remove1_filter_aux:
  "\<forall>x\<in>set pre. \<not> P x \<Longrightarrow>
   fold remove1 (filter P xs) (pre @ xs) = pre @ filter (\<lambda>x. \<not> P x) xs"
proof (induction xs arbitrary: pre)
  case Nil
  then show ?case by simp
next
  case (Cons x xs)
  show ?case
  proof (cases "P x")
    case True
    with Cons.prems have "x \<notin> set pre" by auto
    then have "remove1 x (pre @ x # xs) = pre @ xs"
      by (simp add: remove1_append)
    with True Cons.IH [OF Cons.prems] show ?thesis by simp
  next
    case False
    with Cons.prems have "\<forall>y\<in>set (pre @ [x]). \<not> P y" by auto
    from Cons.IH [OF this] False show ?thesis by simp
  qed
qed

lemma fold_remove1_filter:
  "fold remove1 (filter P xs) xs = filter (\<lambda>x. \<not> P x) xs"
  using fold_remove1_filter_aux [of "[]" P xs] by simp

lemma inner_absent:
  "v \<notin> set rl \<Longrightarrow>
   fold (\<lambda>face rl. if v \<in> set (f_verts face) \<and> v \<in> set rl then remove1 v rl else rl) fs rl = rl"
  by (induction fs) auto

lemma inner_fresh:
  "v \<notin> set rl \<Longrightarrow>
   fold (\<lambda>face rl. if v \<in> set (f_verts face) \<and> v \<in> set rl then remove1 v rl else rl) fs (rl @ [v])
     = (if in_some_face fs v then rl else rl @ [v])"
proof (induction fs)
  case Nil
  then show ?case by (simp add: in_some_face_def)
next
  case (Cons f fs)
  show ?case
  proof (cases "v \<in> set (f_verts f)")
    case True
    with Cons.prems have "remove1 v (rl @ [v]) = rl" by (simp add: remove1_append)
    with True Cons.prems show ?thesis
      by (simp add: in_some_face_def inner_absent)
  next
    case False
    with Cons show ?thesis by (simp add: in_some_face_def)
  qed
qed

lemma inner_isolated:
  "\<not> in_some_face fs v \<Longrightarrow>
   fold (\<lambda>face rl. if v \<in> set (f_verts face) \<and> v \<in> set rl then remove1 v rl else rl) fs rl = rl"
  by (induction fs) (auto simp: in_some_face_def)

lemma outer_loop:
  "\<forall>v\<in>set rl. \<not> in_some_face fs v \<Longrightarrow>
   fold (\<lambda>vert rl.
            fold (\<lambda>face rl. if vert \<in> set (f_verts face) \<and> vert \<in> set rl
                             then remove1 vert rl else rl) fs (rl @ [vert])) vs rl
   = rl @ filter (\<lambda>v. \<not> in_some_face fs v) vs"
proof (induction vs arbitrary: rl)
  case Nil
  then show ?case by simp
next
  case (Cons v vs)
  show ?case
  proof (cases "in_some_face fs v")
    case True
    with Cons.prems have "v \<notin> set rl" by auto
    with True Cons.IH [OF Cons.prems] show ?thesis by (simp add: inner_fresh)
  next
    case False
    with Cons.prems have "\<forall>w\<in>set (rl @ [v]). \<not> in_some_face fs w" by auto
    from Cons.IH [OF this] False show ?thesis by (simp add: inner_isolated)
  qed
qed

lemma vert_remove_list_eq:
  "vert_remove_list bm = filter (\<lambda>v. \<not> in_some_face (bm_faces bm) v) (bm_verts bm)"
  unfolding vert_remove_list_def using outer_loop [of "[]" "bm_faces bm" "bm_verts bm"] by simp

text \<open>What one pass of the loop over the materials keeps.\<close>

lemma split_material_eq:
  "split_material mesh old_mesh obj (mat_id, mat) =
     (let fs = filter (\<lambda>face. f_material_index face = mat_id) (bm_faces old_mesh);
          vs = filter (in_some_face fs) (bm_verts old_mesh)
      in if vs \<noteq> []
         then [(if length (me_materials mesh) = 1 then me_name mesh
                else me_name mesh @ ''.'' @ mat_name mat,
                old_mesh\<lparr>bm_faces := fs, bm_verts := vs\<rparr>, obj)]
         else [])"
  by (simp add: split_material_def Let_def fold_remove1_filter vert_remove_list_eq)

lemma mset_concat_by_index:
  "mset (concat (map (\<lambda>k. filter (\<lambda>x. f x = k) xs) [0..<n])) = mset (filter (\<lambda>x. f x < n) xs)"
proof (induction n)
  case 0
  then show ?case by simp
next
  case (Suc n)
  have "mset (filter (\<lambda>x. f x < Suc n) xs) =
        mset (filter (\<lambda>x. f x < n) xs) + mset (filter (\<lambda>x. f x = n) xs)"
    by (induction xs) auto
  with Suc show ?case by simp
qed

lemma triangle_in_some_face:
  assumes "triangles_in vs fs" "face \<in> set fs" "f_material_index face = k"
  shows "filter (in_some_face (filter (\<lambda>face. f_material_index face = k) fs)) vs \<noteq> []"
proof -
  from assms(1,2) have len: "length (f_loops face) = 3"
    and inv: "\<forall>v\<in>set (f_verts face). v \<in> set vs"
    by (auto simp: triangles_in_def list_all_iff)
  from len obtain v where v: "v \<in> set (f_verts face)"
    by (cases "f_loops face") (auto simp: f_verts_def)
  with inv have "v \<in> set vs" by simp
  moreover from v assms(2,3) have "in_some_face (filter (\<lambda>face. f_material_index face = k) fs) v"
    by (auto simp: in_some_face_def)
  ultimately show ?thesis by (auto simp: filter_empty_conv)
qed

lemma split_material_face_lists:
  assumes "triangles_in (bm_verts old_mesh) (bm_faces old_mesh)"
  shows "map submesh_faces (split_material mesh old_mesh obj (k, mat))
         = filter (\<lambda>fs. fs \<noteq> []) [filter (\<lambda>face. f_material_index face = k) (bm_faces old_mesh)]"
proof (cases "filter (\<lambda>face. f_material_index face = k) (bm_faces old_mesh) = []")
  case True
  then show ?thesis
    by (simp add: split_material_eq Let_def submesh_faces_def in_some_face_def)
next
  case False
  then obtain face where "face \<in> set (bm_faces old_mesh)" "f_material_index face = k"
    by (auto simp: filter_empty_conv)
  from triangle_in_some_face [OF assms this] False show ?thesis
    by (simp add: split_material_eq Let_def submesh_faces_def)
qed

lemma concat_split_material_face_lists:
  assumes "triangles_in (bm_verts old_mesh) (bm_faces old_mesh)"
  shows "map submesh_faces (concat (map (split_material mesh old_mesh obj) (enumerate n mats)))
         = filter (\<lambda>fs. fs \<noteq> [])
             (map (\<lambda>k. filter (\<lambda>face. f_material_index face = k) (bm_faces old_mesh))
                       [n..<n + length mats])"
proof (induction mats arbitrary: n)
  case Nil
  then show ?case by simp
next
  case (Cons m mats)
  have "[n..<n + length (m # mats)] = n # [Suc n..<Suc n + length mats]"
    by (simp add: upt_rec)
  with Cons [of "Suc n"] split_material_face_lists [OF assms, of mesh obj n m] show ?case
    by simp
qed

lemma separate_face_lists:
  assumes "triangles_in (bm_verts (me_geometry mesh)) (triangulated_faces host mesh)"
  shows "map submesh_faces (separate_mesh_by_material host mesh obj) =
     (if me_materials mesh \<noteq> []
      then filter (\<lambda>fs. fs \<noteq> [])
             (map (\<lambda>k. filter (\<lambda>face. f_material_index face = k) (triangulated_faces host mesh))
                       [0..<length (me_materials mesh)])
      else [triangulated_faces host mesh])"
  using assms concat_split_material_face_lists [of "(me_geometry mesh)\<lparr>bm_faces := triangulated_faces host mesh\<rparr>" mesh obj 0 "me_materials mesh"]
  by (simp add: separate_mesh_by_material_def Let_def triangulated_faces_def submesh_faces_def)

lemma concat_filter_nonempty:
  "concat (filter (\<lambda>fs. fs \<noteq> []) xss) = concat xss"
  by (induction xss) auto

lemma disjoint_by_index:
  "sorted_wrt (\<lambda>a b. set a \<inter> set b = {})
     (filter (\<lambda>fs. fs \<noteq> []) (map (\<lambda>k. filter (\<lambda>x. f x = k) xs) [0..<n]))"
proof -
  have "sorted_wrt (\<lambda>i j. set (filter (\<lambda>x. f x = i) xs) \<inter> set (filter (\<lambda>x. f x = j) xs) = {}) [0..<n]"
    by (rule sorted_wrt_mono_rel [of _ "(<)"]) auto
  then have "sorted_wrt (\<lambda>a b. set a \<inter> set b = {}) (map (\<lambda>k. filter (\<lambda>x. f x = k) xs) [0..<n])"
    by (simp add: sorted_wrt_map)
  then show ?thesis by (rule sorted_wrt_filter)
qed

text \<open>
  Claim C1. For a mesh whose faces carry a material index within its material list (or
  that has no material at all), triangulated by Blender into triangles on its own
  vertices that keep the material index of their face, the sub-meshes of
  \<open>separate_mesh_by_material\<close> partition the triangulated face set: their triangle counts
  add up to the number of triangulated faces, their faces together are the triangulated
  faces, each as often as there, and two different sub-meshes share no triangle.
\<close>

theorem separate_mesh_by_material_partition:
  assumes tri: "triangles_in (bm_verts (me_geometry mesh)) (triangulated_faces host mesh)"
    and keep: "keeps_material_index host mesh"
    and rng: "me_materials mesh = [] \<or>
              list_all (\<lambda>face. f_material_index face < length (me_materials mesh))
                (bm_faces (me_geometry mesh))"
  shows "sum_list (map (\<lambda>m. length (submesh_faces m)) (separate_mesh_by_material host mesh obj))
           = length (triangulated_faces host mesh)
       \<and> mset (concat (map submesh_faces (separate_mesh_by_material host mesh obj)))
           = mset (triangulated_faces host mesh)
       \<and> (\<forall>i j. i < j \<and> j < length (separate_mesh_by_material host mesh obj) \<longrightarrow>
            set (submesh_faces (separate_mesh_by_material host mesh obj ! i)) \<inter>
            set (submesh_faces (separate_mesh_by_material host mesh obj ! j)) = {})"
proof -
  let ?S = "separate_mesh_by_material host mesh obj"
  let ?T = "triangulated_faces host mesh"
  have all_in: "me_materials mesh \<noteq> [] \<Longrightarrow>
                filter (\<lambda>face. f_material_index face < length (me_materials mesh)) ?T = ?T"
    using keep rng by (auto simp: keeps_material_index_def list_all_iff filter_id_conv)
  have "concat (map submesh_faces ?S) =
     (if me_materials mesh \<noteq> []
      then concat (map (\<lambda>k. filter (\<lambda>face. f_material_index face = k) ?T)
                       [0..<length (me_materials mesh)])
      else ?T)"
    unfolding separate_face_lists [OF tri] by (simp add: concat_filter_nonempty)
  with all_in have perm: "mset (concat (map submesh_faces ?S)) = mset ?T"
    by (simp add: mset_concat_by_index)
  have "sum_list (map (\<lambda>m. length (submesh_faces m)) ?S) = length (concat (map submesh_faces ?S))"
    by (simp add: length_concat comp_def)
  also have "\<dots> = size (mset (concat (map submesh_faces ?S)))" by simp
  also have "\<dots> = length ?T" unfolding perm by simp
  finally have count: "sum_list (map (\<lambda>m. length (submesh_faces m)) ?S) = length ?T" .
  have "sorted_wrt (\<lambda>a b. set a \<inter> set b = {}) (map submesh_faces ?S)"
    unfolding separate_face_lists [OF tri] by (simp add: disjoint_by_index)
  then have disj: "\<forall>i j. i < j \<and> j < length ?S \<longrightarrow>
      set (submesh_faces (?S ! i)) \<inter> set (submesh_faces (?S ! j)) = {}"
    by (auto simp: sorted_wrt_iff_nth_less)
  from count perm disj show ?thesis by blast
qed

text \<open>
  Claim C10. A mesh with an empty material list gives exactly one sub-mesh, under the
  name of the mesh, with all triangulated faces and all vertices of the mesh: nothing is
  pruned, and the sub-mesh is kept whatever it holds.
\<close>

theorem separate_mesh_no_materials:
  assumes "me_materials mesh = []"
  shows "separate_mesh_by_material host mesh obj =
           [(me_name mesh, (me_geometry mesh)\<lparr>bm_faces := triangulated_faces host mesh\<rparr>, obj)]"
  using assms by (simp add: separate_mesh_by_material_def triangulated_faces_def)

subsection \<open>The splitter on the example plane\<close>

lemma plane_triangles:
  "triangulated_faces example_host plane =
     [\<lparr>f_loops = [corner (vert 0 (0, 0, 0)), corner (vert 1 (1, 0, 0)), corner (vert 2 (1, 1, 0))],
       f_material_index = 0\<rparr>,
      \<lparr>f_loops = [corner (vert 0 (0, 0, 0)), corner (vert 2 (1, 1, 0)), corner (vert 3 (0, 1, 0))],
       f_material_index = 0\<rparr>,
      \<lparr>f_loops = [corner (vert 1 (1, 0, 0)), corner (vert 4 (2, 3, 5)), corner (vert 2 (1, 1, 0))],
       f_material_index = 1\<rparr>]"
  by (simp add: triangulated_faces_def example_host_def plane_def plane_geometry_def
      fan_triangulate_def)

lemma plane_split:
  "map submesh_faces (separate_mesh_by_material example_host plane []) =
     [[\<lparr>f_loops = [corner (vert 0 (0, 0, 0)), corner (vert 1 (1, 0, 0)), corner (vert 2 (1, 1, 0))],
       f_material_index = 0\<rparr>,
      \<lparr>f_loops = [corner (vert 0 (0, 0, 0)), corner (vert 2 (1, 1, 0)), corner (vert 3 (0, 1, 0))],
       f_material_index = 0\<rparr>],
      [\<lparr>f_loops = [corner (vert 1 (1, 0, 0)), corner (vert 4 (2, 3, 5)), corner (vert 2 (1, 1, 0))],
       f_material_index = 1\<rparr>]]"
  by (simp add: separate_mesh_by_material_def split_material_eq Let_def
      example_host_def plane_def plane_geometry_def fan_triangulate_def submesh_faces_def
      in_some_face_def f_verts_def vert_def corner_def material_def)

theorem separate_mesh_by_material_partition_witness:
  "triangles_in (bm_verts (me_geometry plane)) (triangulated_faces example_host plane)
   \<and> keeps_material_index example_host plane
   \<and> list_all (\<lambda>face. f_material_index face < length (me_materials plane))
        (bm_faces (me_geometry plane))
   \<and> length (triangulated_faces example_host plane) = 3
   \<and> length (separate_mesh_by_material example_host plane []) = 2
   \<and> sum_list (map (\<lambda>m. length (submesh_faces m)) (separate_mesh_by_material example_host plane []))
       = length (triangulated_faces example_host plane)
   \<and> set (submesh_faces (separate_mesh_by_material example_host plane [] ! 0)) \<inter>
     set (submesh_faces (separate_mesh_by_material example_host plane [] ! 1)) = {}"
proof -
  have tri: "triangles_in (bm_verts (me_geometry plane)) (triangulated_faces example_host plane)"
    unfolding plane_triangles
    by (simp add: triangles_in_def plane_def plane_geometry_def f_verts_def corner_def vert_def)
  have keep: "keeps_material_index example_host plane"
    unfolding keeps_material_index_def plane_triangles
    by (simp add: plane_def plane_geometry_def)
  have rng: "list_all (\<lambda>face. f_material_index face < length (me_materials plane))
        (bm_faces (me_geometry plane))"
    by (simp add: plane_def plane_geometry_def)
  have n: "length (triangulated_faces example_host plane) = 3"
    unfolding plane_triangles by simp
  have "length (map submesh_faces (separate_mesh_by_material example_host plane [])) = 2"
    unfolding plane_split by simp
  then have m: "length (separate_mesh_by_material example_host plane []) = 2" by simp
  note part = separate_mesh_by_material_partition [OF tri keep disjI2 [OF rng], of "[]"]
  from part have count: "sum_list (map (\<lambda>m. length (submesh_faces m)) (separate_mesh_by_material example_host plane []))
       = length (triangulated_faces example_host plane)" by blast
  from part m have disj: "set (submesh_faces (separate_mesh_by_material example_host plane [] ! 0)) \<inter>
     set (submesh_faces (separate_mesh_by_material example_host plane [] ! 1)) = {}"
    by simp
  from tri keep rng n m count disj show ?thesis by blast
qed

theorem separate_mesh_no_materials_witness:
  "me_materials loose = []
   \<and> separate_mesh_by_material example_host loose [] =
       [(''Loose'', \<lparr>bm_verts = [vert 0 (1, 2, 3)], bm_faces = [], bm_uv_layers = [],
                     bm_vertex_colors = 0, bm_active_index = -1\<rparr>, [])]"
proof -
  have h: "me_materials loose = []" by (simp add: loose_def)
  from separate_mesh_no_materials [OF h, of example_host "[]"] h show ?thesis
    by (simp add: loose_def triangulated_faces_def example_host_def fan_triangulate_def)
qed

section \<open>The attribute flattener fills every array\<close>

lemma ebind_Inr [simp]: "ebind (Inr x) f = f x"
  by (simp add: ebind_def)

lemma ebind_Inl [simp]: "ebind (Inl e) f = Inl e"
  by (simp add: ebind_def)

lemma ebind_eq_Inr: "(ebind m f = Inr y) = (\<exists>x. m = Inr x \<and> f x = Inr y)"
  by (cases m) simp_all

lemma efold_indexed:
  assumes "\<And>i s. i < length xs \<Longrightarrow> P i s \<Longrightarrow> \<exists>s'. f (xs ! i) s = Inr s' \<and> P (Suc i) s'"
    and "P 0 s"
  shows "\<exists>s'. efold f xs s = Inr s' \<and> P (length xs) s'"
  using assms
proof (induction xs arbitrary: P s)
  case Nil
  then show ?case by simp
next
  case (Cons x xs)
  from Cons.prems(1) [of 0 s] Cons.prems(2)
  obtain s1 where s1: "f x s = Inr s1" "P (Suc 0) s1" by auto
  have "\<exists>s'. efold f xs s1 = Inr s' \<and> P (Suc (length xs)) s'"
  proof (rule Cons.IH [of "\<lambda>i. P (Suc i)"])
    fix i s assume "i < length xs" "P (Suc i) s"
    with Cons.prems(1) [of "Suc i" s] show "\<exists>s'. f (xs ! i) s = Inr s' \<and> P (Suc (Suc i)) s'"
      by simp
  next
    show "P (Suc 0) s1" by fact
  qed
  with s1 show ?case by simp
qed

lemma list_assign_ok: "i < length xs \<Longrightarrow> list_assign xs i v = Inr (xs[i := v])"
  by (simp add: list_assign_def)

lemma list_get_ok: "i < length xs \<Longrightarrow> list_get xs i = Inr (xs ! i)"
  by (simp add: list_get_def)

lemma filled_replicate: "filled ok c n 0 (replicate (n * c) PyNone)"
  by (simp add: filled_def mult.commute)

lemma filled_done: "filled ok c n n lst \<Longrightarrow> length lst = c * n \<and> list_all ok lst"
  by (auto simp: filled_def list_all_length)

lemma assign3_filled:
  assumes "filled is_float 3 n k lst" "k < n"
  shows "\<exists>lst'. assign3 lst k v = Inr lst' \<and> filled is_float 3 n (Suc k) lst'"
proof -
  from assms have len: "length lst = 3 * n" and old: "\<forall>j < 3 * k. is_float (lst ! j)"
    by (auto simp: filled_def)
  from len \<open>k < n\<close> have b: "3 * k < length lst" "3 * k + 1 < length lst" "3 * k + 2 < length lst"
    by auto
  let ?l = "lst[3 * k := PyFloat (fst v), 3 * k + 1 := PyFloat (fst (snd v)),
               3 * k + 2 := PyFloat (snd (snd v))]"
  from b have eq: "assign3 lst k v = Inr ?l"
    by (simp add: assign3_def list_assign_ok)
  have "is_float (?l ! j)" if "j < 3 * Suc k" for j
  proof -
    from that have "j < 3 * k \<or> j = 3 * k \<or> j = 3 * k + 1 \<or> j = 3 * k + 2" by arith
    then show ?thesis using b old by (auto simp: nth_list_update is_float_def)
  qed
  with len eq show ?thesis by (simp add: filled_def)
qed

lemma filled_mono_ok:
  "filled ok c n k lst \<Longrightarrow> length lst' = length lst \<Longrightarrow>
   (\<forall>j < c * k. ok (lst ! j) \<longrightarrow> ok (lst' ! j)) \<Longrightarrow> filled ok c n k lst'"
  by (simp add: filled_def)

lemma filled_weaken: "filled ok c n (Suc k) lst \<Longrightarrow> filled ok c n k lst"
  by (simp add: filled_def)

lemma assign2_filled:
  assumes "filled is_float 2 n k lst" "k < n"
  shows "\<exists>lst'. ebind (list_assign lst (2 * k) (PyFloat a)) (\<lambda>lst.
                 ebind (list_assign lst (2 * k + 1) (PyFloat b)) (\<lambda>lst. g lst)) = g lst'
               \<and> filled is_float 2 n (Suc k) lst'"
proof -
  from assms have len: "length lst = 2 * n" and old: "\<forall>j < 2 * k. is_float (lst ! j)"
    by (auto simp: filled_def)
  from len \<open>k < n\<close> have b: "2 * k < length lst" "2 * k + 1 < length lst" by auto
  let ?l = "lst[2 * k := PyFloat a, 2 * k + 1 := PyFloat b]"
  from b have eq: "ebind (list_assign lst (2 * k) (PyFloat a)) (\<lambda>lst.
                 ebind (list_assign lst (2 * k + 1) (PyFloat b)) (\<lambda>lst. g lst)) = g ?l"
    by (simp add: list_assign_ok)
  have "is_float (?l ! j)" if "j < 2 * Suc k" for j
  proof -
    from that have "j < 2 * k \<or> j = 2 * k \<or> j = 2 * k + 1" by arith
    then show ?thesis using b old by (auto simp: nth_list_update is_float_def)
  qed
  with len eq show ?thesis by (auto simp: filled_def)
qed

lemma assign4_filled:
  assumes "filled is_int 4 n k lst" "k < n"
  shows "\<exists>lst'. ebind (list_assign lst (4 * k) (PyInt a)) (\<lambda>lst.
                 ebind (list_assign lst (4 * k + 1) (PyInt b)) (\<lambda>lst.
                 ebind (list_assign lst (4 * k + 2) (PyInt c)) (\<lambda>lst.
                 ebind (list_assign lst (4 * k + 3) (PyInt d)) (\<lambda>lst. g lst)))) = g lst'
               \<and> filled is_int 4 n (Suc k) lst'"
proof -
  from assms have len: "length lst = 4 * n" and old: "\<forall>j < 4 * k. is_int (lst ! j)"
    by (auto simp: filled_def)
  from len \<open>k < n\<close> have b: "4 * k < length lst" "4 * k + 1 < length lst"
    "4 * k + 2 < length lst" "4 * k + 3 < length lst" by auto
  let ?l = "lst[4 * k := PyInt a, 4 * k + 1 := PyInt b, 4 * k + 2 := PyInt c, 4 * k + 3 := PyInt d]"
  from b have eq: "ebind (list_assign lst (4 * k) (PyInt a)) (\<lambda>lst.
                 ebind (list_assign lst (4 * k + 1) (PyInt b)) (\<lambda>lst.
                 ebind (list_assign lst (4 * k + 2) (PyInt c)) (\<lambda>lst.
                 ebind (list_assign lst (4 * k + 3) (PyInt d)) (\<lambda>lst. g lst)))) = g ?l"
    by (simp add: list_assign_ok)
  have "is_int (?l ! j)" if "j < 4 * Suc k" for j
  proof -
    from that have "j < 4 * k \<or> j = 4 * k \<or> j = 4 * k + 1 \<or> j = 4 * k + 2 \<or> j = 4 * k + 3"
      by arith
    then show ?thesis using b old by (auto simp: nth_list_update is_int_def)
  qed
  with len eq show ?thesis by (auto simp: filled_def)
qed

lemma col_step_filled:
  assumes "col_filled col_data n k vertcollist" "k < n" "lp_index loop = k"
  shows "\<exists>v'. col_step col_data loop vertcollist = Inr v' \<and> col_filled col_data n (Suc k) v'"
proof (cases col_data)
  case None
  with assms show ?thesis by (simp add: col_step_def col_filled_def)
next
  case (Some cd)
  with assms obtain lst where l: "length cd = n" "vertcollist = Some lst" "filled is_int 4 n k lst"
    by (auto simp: col_filled_def)
  from assign4_filled [OF l(3) \<open>k < n\<close>, of "py_int (fst (cd ! k) * 255)"
      "py_int (fst (snd (cd ! k)) * 255)" "py_int (snd (snd (cd ! k)) * 255)" 255
      "\<lambda>lst. Inr (Some lst)"]
  obtain lst' where "ebind (list_assign lst (4 * k) (PyInt (py_int (fst (cd ! k) * 255)))) (\<lambda>lst.
                 ebind (list_assign lst (4 * k + 1) (PyInt (py_int (fst (snd (cd ! k)) * 255)))) (\<lambda>lst.
                 ebind (list_assign lst (4 * k + 2) (PyInt (py_int (snd (snd (cd ! k)) * 255)))) (\<lambda>lst.
                 ebind (list_assign lst (4 * k + 3) (PyInt 255)) (\<lambda>lst. Inr (Some lst))))) = Inr (Some lst')"
    and "filled is_int 4 n (Suc k) lst'" by blast
  with l Some assms(2,3) show ?thesis
    by (simp add: col_step_def col_filled_def list_get_ok)
qed

lemma uv_step_filled:
  assumes uv: "uv_filled K n k D uvdata" and "k < n" and "lp_index loop = k"
    and key: "uv_lay \<in> K" and lay: "map_of (tm_uv_layers mesh) uv_lay = Some data"
    and len: "length data = n"
  shows "\<exists>uv'. uv_step mesh loop uv_lay uvdata = Inr uv' \<and> uv_filled K n k (insert uv_lay D) uv'"
proof -
  from uv key obtain lst where lst: "map_of uvdata uv_lay = Some lst"
    by (auto simp: uv_filled_def)
  with uv have "filled is_float 2 n (if uv_lay \<in> D then Suc k else k) lst"
    by (simp add: uv_filled_def)
  then have f: "filled is_float 2 n k lst" by (auto intro: filled_weaken split: if_splits)
  from assign2_filled [OF f \<open>k < n\<close>, of "fst (data ! k)" "snd (data ! k)"
      "\<lambda>lst. Inr (AList.update uv_lay lst uvdata)"]
  obtain lst' where l': "ebind (list_assign lst (2 * k) (PyFloat (fst (data ! k)))) (\<lambda>lst.
                 ebind (list_assign lst (2 * k + 1) (PyFloat (snd (data ! k)))) (\<lambda>lst.
                 Inr (AList.update uv_lay lst uvdata))) = Inr (AList.update uv_lay lst' uvdata)"
    and f': "filled is_float 2 n (Suc k) lst'" by blast
  from lay len lst l' assms(2,3)
  have eq: "uv_step mesh loop uv_lay uvdata = Inr (AList.update uv_lay lst' uvdata)"
    by (simp add: uv_step_def dict_get_def list_get_ok)
  have "uv_filled K n k (insert uv_lay D) (AList.update uv_lay lst' uvdata)"
    using uv key f' by (auto simp: uv_filled_def update_conv' split: if_splits)
  with eq show ?thesis by blast
qed

lemma uv_loop_filled:
  assumes uv: "uv_filled K n k {} uvdata" and "k < n" and "lp_index loop = k"
    and keys: "set ks = K" and lay: "\<forall>name \<in> K. \<exists>data. map_of (tm_uv_layers mesh) name = Some data \<and> length data = n"
  shows "\<exists>uv'. efold (uv_step mesh loop) ks uvdata = Inr uv' \<and> uv_filled K n (Suc k) {} uv'"
proof -
  have "\<exists>uv'. efold (uv_step mesh loop) ks uvdata = Inr uv' \<and> uv_filled K n k (set (take (length ks) ks)) uv'"
  proof (rule efold_indexed [where P = "\<lambda>j. uv_filled K n k (set (take j ks))"])
    fix i s assume i: "i < length ks" and s: "uv_filled K n k (set (take i ks)) s"
    from i keys have "ks ! i \<in> K" by auto
    with lay obtain data where d: "map_of (tm_uv_layers mesh) (ks ! i) = Some data" "length data = n"
      by blast
    from uv_step_filled [OF s assms(2,3) \<open>ks ! i \<in> K\<close> d] i
    show "\<exists>s'. uv_step mesh loop (ks ! i) s = Inr s' \<and> uv_filled K n k (set (take (Suc i) ks)) s'"
      by (simp add: take_Suc_conv_app_nth)
  next
    from uv show "uv_filled K n k (set (take 0 ks)) uvdata" by simp
  qed
  then obtain uv' where r: "efold (uv_step mesh loop) ks uvdata = Inr uv'" "uv_filled K n k K uv'"
    using keys by auto
  from r(2) have "uv_filled K n (Suc k) {} uv'"
    by (auto simp: uv_filled_def dest: domI split: if_splits)
  with r(1) show ?thesis by blast
qed

lemma index_of_less: "x \<in> set xs \<Longrightarrow> index_of xs x < length xs"
  by (induction xs) auto

lemma index_of_absent: "x \<notin> set xs \<Longrightarrow> index_of xs x = length xs"
  by (induction xs) auto

lemma nth_index_of: "x \<in> set xs \<Longrightarrow> xs ! index_of xs x = x"
  by (induction xs) auto

lemma index_of_first: "j < index_of xs x \<Longrightarrow> xs ! j \<noteq> x"
proof (induction xs arbitrary: j)
  case Nil
  then show ?case by simp
next
  case (Cons y ys)
  then show ?case by (cases j) (auto split: if_splits)
qed

lemma index_of_inj:
  assumes "a \<in> set xs" "index_of xs a = index_of xs b"
  shows "a = b"
proof -
  from assms have lt: "index_of xs b < length xs" using index_of_less [of a xs] by simp
  have "b \<in> set xs"
  proof (rule ccontr)
    assume "b \<notin> set xs"
    then have "index_of xs b = length xs" by (rule index_of_absent)
    with lt show False by simp
  qed
  then have "xs ! index_of xs b = b" by (rule nth_index_of)
  moreover from assms(1) have "xs ! index_of xs a = a" by (rule nth_index_of)
  ultimately show ?thesis using assms(2) by simp
qed

lemma index_of_nth_distinct: "distinct xs \<Longrightarrow> i < length xs \<Longrightarrow> index_of xs (xs ! i) = i"
proof (induction xs arbitrary: i)
  case Nil
  then show ?case by simp
next
  case (Cons y ys)
  then show ?case by (cases i) auto
qed

lemma uv_step_keys:
  "uv_step mesh loop uv_lay uvdata = Inr uv' \<Longrightarrow> distinct (map fst uvdata) \<Longrightarrow> distinct (map fst uv')"
  by (auto simp: uv_step_def ebind_eq_Inr distinct_update)

lemma uv_loop_keys:
  "efold (uv_step mesh loop) ks uvdata = Inr uv' \<Longrightarrow> distinct (map fst uvdata) \<Longrightarrow> distinct (map fst uv')"
proof (induction ks arbitrary: uvdata)
  case Nil
  then show ?case by simp
next
  case (Cons k ks)
  then show ?case by (auto simp: ebind_eq_Inr dest: uv_step_keys)
qed

lemma loop_step_inv:
  assumes ok: "tm_ok mesh n" and K: "K = set (map fst (tm_uv_layers mesh))"
    and i: "i < n" and inv: "loop_inv K col_data n i st"
  shows "\<exists>st'. loop_step mesh col_data (tm_loops mesh ! i) st = Inr st' \<and> loop_inv K col_data n (Suc i) st'"
proof -
  let ?loop = "tm_loops mesh ! i"
  from ok i have idx: "lp_index ?loop = i"
    and vi: "lp_vertex_index ?loop < length (tm_vertices mesh)"
    by (auto simp: tm_ok_def)
  from ok K have lay: "\<forall>name \<in> K. \<exists>data. map_of (tm_uv_layers mesh) name = Some data \<and> length data = n"
    by (simp add: tm_ok_def)
  from inv have uv: "uv_filled K n i {} (st_uvdata st)" and d: "distinct (map fst (st_uvdata st))"
    and pos: "filled is_float 3 n i (st_vertposlist st)"
    and nor: "filled is_float 3 n i (st_vertnormallist st)"
    and col: "col_filled col_data n i (st_vertcollist st)"
    and ind: "st_indices st = [0..<i]"
    by (auto simp: loop_inv_def)
  from uv_loop_filled [OF uv i idx K [symmetric] lay]
  obtain uv' where uv': "efold (uv_step mesh ?loop) (map fst (tm_uv_layers mesh)) (st_uvdata st) = Inr uv'"
    "uv_filled K n (Suc i) {} uv'" by blast
  from uv_loop_keys [OF uv'(1) d] have d': "distinct (map fst uv')" .
  from assign3_filled [OF pos i, of "tm_vertices mesh ! lp_vertex_index ?loop"]
  obtain p' where p': "assign3 (st_vertposlist st) i (tm_vertices mesh ! lp_vertex_index ?loop) = Inr p'"
    "filled is_float 3 n (Suc i) p'" by blast
  from assign3_filled [OF nor i, of "lp_normal ?loop"]
  obtain n' where n': "assign3 (st_vertnormallist st) i (lp_normal ?loop) = Inr n'"
    "filled is_float 3 n (Suc i) n'" by blast
  from col_step_filled [OF col i idx]
  obtain c' where c': "col_step col_data ?loop (st_vertcollist st) = Inr c'"
    "col_filled col_data n (Suc i) c'" by blast
  from vi idx uv' p' n' c' d' ind show ?thesis
    by (simp add: loop_step_def list_get_ok loop_inv_def)
qed

lemma loop_inv_all:
  assumes ok: "tm_ok mesh n" and K: "K = set (map fst (tm_uv_layers mesh))"
    and inv: "loop_inv K col_data n 0 st"
  shows "\<exists>st'. efold (loop_step mesh col_data) (tm_loops mesh) st = Inr st' \<and> loop_inv K col_data n n st'"
proof -
  from ok have len: "length (tm_loops mesh) = n" by (simp add: tm_ok_def)
  have "\<exists>st'. efold (loop_step mesh col_data) (tm_loops mesh) st = Inr st'
          \<and> loop_inv K col_data n (length (tm_loops mesh)) st'"
  proof (rule efold_indexed [where P = "loop_inv K col_data n"])
    fix i s assume "i < length (tm_loops mesh)" "loop_inv K col_data n i s"
    with len loop_step_inv [OF ok K, of i col_data s]
    show "\<exists>s'. loop_step mesh col_data (tm_loops mesh ! i) s = Inr s' \<and> loop_inv K col_data n (Suc i) s'"
      by simp
  qed (rule inv)
  with len show ?thesis by simp
qed

lemma map_of_fold_update:
  "map_of (fold (\<lambda>i d. AList.update i v d) ks d0) = (\<lambda>x. if x \<in> set ks then Some v else map_of d0 x)"
  by (induction ks arbitrary: d0) (auto simp: update_conv' fun_eq_iff)

lemma distinct_fold_update:
  "distinct (map fst d0) \<Longrightarrow> distinct (map fst (fold (\<lambda>i d. AList.update i v d) ks d0))"
  by (induction ks arbitrary: d0) (auto simp: distinct_update)

lemma length_concat_triangles:
  "triangles_in vs fs \<Longrightarrow> length (concat (map f_loops fs)) = 3 * length fs"
  by (induction fs) (auto simp: triangles_in_def)

lemma length_bm_loops:
  "triangles_in vs (bm_faces bm) \<Longrightarrow> length (bm_loops bm) = 3 * length (bm_faces bm)"
  by (simp add: bm_loops_def length_concat_triangles)

lemma loop_vert_in:
  assumes "triangles_in vs (bm_faces bm)" "l \<in> set (bm_loops bm)"
  shows "l_vert l \<in> set vs"
  using assms by (auto simp: triangles_in_def bm_loops_def list_all_iff f_verts_def)

lemma map_fst_layers:
  "map fst (map (\<lambda>(i, name). (name, g i)) (enumerate k names)) = names"
  by (induction names arbitrary: k) auto

lemma to_mesh_ok:
  assumes "triangles_in (bm_verts bm) (bm_faces bm)"
  shows "tm_ok (to_mesh host bm) (length (bm_loops bm))"
proof -
  let ?n = "length (bm_loops bm)"
  have a: "length (tm_loops (to_mesh host bm)) = ?n" by (simp add: to_mesh_def)
  have b: "lp_index (tm_loops (to_mesh host bm) ! i) = i \<and>
           lp_vertex_index (tm_loops (to_mesh host bm) ! i) < length (tm_vertices (to_mesh host bm))"
    if "i < ?n" for i
  proof -
    from that have "bm_loops bm ! i \<in> set (bm_loops bm)" by simp
    from loop_vert_in [OF assms this] have "index_of (bm_verts bm) (l_vert (bm_loops bm ! i)) < length (bm_verts bm)"
      by (rule index_of_less)
    with that show ?thesis by (simp add: to_mesh_def nth_enumerate_eq)
  qed
  have c: "\<exists>data. map_of (tm_uv_layers (to_mesh host bm)) name = Some data \<and> length data = ?n"
    if "name \<in> set (map fst (tm_uv_layers (to_mesh host bm)))" for name
  proof -
    from that obtain data where d: "map_of (tm_uv_layers (to_mesh host bm)) name = Some data"
      by (metis map_of_eq_None_iff not_Some_eq set_map)
    then have "(name, data) \<in> set (tm_uv_layers (to_mesh host bm))" by (rule map_of_SomeD)
    then have "length data = ?n" by (auto simp: to_mesh_def)
    with d show ?thesis by blast
  qed
  have d: "length cd = ?n" if "cd \<in> set (tm_vertex_colors (to_mesh host bm))" for cd
    using that by (auto simp: to_mesh_def)
  from a b c d show ?thesis unfolding tm_ok_def by blast
qed

lemma to_mesh_keys: "map fst (tm_uv_layers (to_mesh host bm)) = bm_uv_layers bm"
  by (simp add: to_mesh_def comp_def case_prod_unfold)

text \<open>The loop that names the UV arrays.\<close>

lemma texcoord_other_keys:
  assumes "efold (texcoord_step uv_list) uv vd = Inr vd'"
    and "\<forall>name \<in> fst ` set uv. key \<noteq> TexCoord (index_of uv_list name)"
  shows "map_of vd' key = map_of vd key"
  using assms
proof (induction uv arbitrary: vd)
  case Nil
  then show ?case by simp
next
  case (Cons x uv)
  obtain name data where x: "x = (name, data)" by (cases x)
  from Cons.prems(1) x obtain vd1 where
    s: "texcoord_step uv_list (name, data) vd = Inr vd1" and r: "efold (texcoord_step uv_list) uv vd1 = Inr vd'"
    by (auto simp: ebind_eq_Inr)
  from s have vd1: "vd1 = AList.update (TexCoord (index_of uv_list name))
            \<lparr>va_type = ''float32'', va_components = 2, va_data = data\<rparr> vd"
    by (auto simp: texcoord_step_def ebind_eq_Inr list_index_def split: if_splits)
  from Cons.prems(2) x have "key \<noteq> TexCoord (index_of uv_list name)" by simp
  with vd1 have "map_of vd1 key = map_of vd key"
    by (simp add: update_conv')
  moreover from Cons.IH [OF r] Cons.prems(2) have "map_of vd' key = map_of vd1 key" by simp
  ultimately show ?case by simp
qed

lemma texcoord_named:
  assumes "distinct (map fst uv)" and "fst ` set uv \<subseteq> set uv_list"
  shows "\<exists>vd'. efold (texcoord_step uv_list) uv vd = Inr vd' \<and>
           (\<forall>name data. (name, data) \<in> set uv \<longrightarrow>
              map_of vd' (TexCoord (index_of uv_list name))
                = Some \<lparr>va_type = ''float32'', va_components = 2, va_data = data\<rparr>)"
  using assms
proof (induction uv arbitrary: vd)
  case Nil
  then show ?case by simp
next
  case (Cons x uv)
  obtain name data where x: "x = (name, data)" by (cases x)
  let ?vd1 = "AList.update (TexCoord (index_of uv_list name))
            \<lparr>va_type = ''float32'', va_components = 2, va_data = data\<rparr> vd"
  from Cons.prems x have mem: "name \<in> set uv_list" by auto
  then have s: "texcoord_step uv_list (name, data) vd = Inr ?vd1"
    by (simp add: texcoord_step_def list_index_def)
  from Cons.prems have "distinct (map fst uv)" "fst ` set uv \<subseteq> set uv_list" by auto
  from Cons.IH [OF this, of ?vd1] obtain vd' where
    r: "efold (texcoord_step uv_list) uv ?vd1 = Inr vd'"
    and named: "\<forall>name data. (name, data) \<in> set uv \<longrightarrow>
              map_of vd' (TexCoord (index_of uv_list name))
                = Some \<lparr>va_type = ''float32'', va_components = 2, va_data = data\<rparr>" by blast
  have "\<forall>other \<in> fst ` set uv. TexCoord (index_of uv_list name) \<noteq> TexCoord (index_of uv_list other)"
  proof
    fix other assume o: "other \<in> fst ` set uv"
    with Cons.prems(1) x have "other \<noteq> name" by auto
    with index_of_inj [OF mem, of other] show "TexCoord (index_of uv_list name) \<noteq> TexCoord (index_of uv_list other)"
      by auto
  qed
  from texcoord_other_keys [OF r this]
  have "map_of vd' (TexCoord (index_of uv_list name))
          = Some \<lparr>va_type = ''float32'', va_components = 2, va_data = data\<rparr>"
    by (simp add: update_conv')
  with named x s r show ?case by auto
qed

lemma texcoord_keys:
  assumes "efold (texcoord_step uv_list) uv vd = Inr vd'"
  shows "fst ` set vd' = fst ` set vd \<union> (\<lambda>name. TexCoord (index_of uv_list name)) ` fst ` set uv
       \<and> fst ` set uv \<subseteq> set uv_list"
  using assms
proof (induction uv arbitrary: vd)
  case Nil
  then show ?case by simp
next
  case (Cons x uv)
  obtain name data where x: "x = (name, data)" by (cases x)
  from Cons.prems x obtain vd1 where
    s: "texcoord_step uv_list (name, data) vd = Inr vd1" and r: "efold (texcoord_step uv_list) uv vd1 = Inr vd'"
    by (auto simp: ebind_eq_Inr)
  from s have mem: "name \<in> set uv_list"
    and vd1: "vd1 = AList.update (TexCoord (index_of uv_list name))
            \<lparr>va_type = ''float32'', va_components = 2, va_data = data\<rparr> vd"
    by (auto simp: texcoord_step_def ebind_eq_Inr list_index_def split: if_splits)
  have k1: "fst ` set vd1 = insert (TexCoord (index_of uv_list name)) (fst ` set vd)"
    unfolding vd1 by (simp add: dom_update)
  from Cons.IH [OF r] k1 mem x show ?case by auto
qed

lemma col_data_ok:
  assumes "color_layer_ok bm" "bm_active_index bm \<noteq> -1"
  shows "list_get_int (tm_vertex_colors (to_mesh host bm)) (bm_active_index bm)
         = Inr (tm_vertex_colors (to_mesh host bm) ! nat (bm_active_index bm))
       \<and> tm_vertex_colors (to_mesh host bm) ! nat (bm_active_index bm) \<in> set (tm_vertex_colors (to_mesh host bm))"
proof -
  from assms have r: "0 \<le> bm_active_index bm" "bm_active_index bm < int (bm_vertex_colors bm)"
    by (auto simp: color_layer_ok_def split: if_splits)
  have len: "length (tm_vertex_colors (to_mesh host bm)) = bm_vertex_colors bm"
    by (simp add: to_mesh_def)
  from r len have "nat (bm_active_index bm) < length (tm_vertex_colors (to_mesh host bm))" by simp
  then have "tm_vertex_colors (to_mesh host bm) ! nat (bm_active_index bm) \<in> set (tm_vertex_colors (to_mesh host bm))"
    by (rule nth_mem)
  moreover from r len have "list_get_int (tm_vertex_colors (to_mesh host bm)) (bm_active_index bm)
         = Inr (tm_vertex_colors (to_mesh host bm) ! nat (bm_active_index bm))"
    by (simp add: list_get_int_def)
  ultimately show ?thesis by simp
qed

lemma update_mesh_data_flattened:
  assumes tri: "triangles_in (bm_verts bm) (bm_faces bm)"
    and col: "color_layer_ok bm"
    and uvs: "set (bm_uv_layers bm) \<subseteq> set uv_list"
  shows "\<exists>r. update_mesh_data host bm uv_list = Inr r \<and> flattened bm uv_list r"
proof -
  let ?mesh = "to_mesh host bm"
  let ?n = "length (bm_loops bm)"
  let ?K = "set (bm_uv_layers bm)"
  let ?uv0 = "fold (\<lambda>i d. AList.update i (replicate (?n * 2) PyNone) d) (map fst (tm_uv_layers ?mesh)) []"
  have n3: "?n = 3 * length (bm_faces bm)" by (rule length_bm_loops [OF tri])
  have ok: "tm_ok ?mesh ?n" by (rule to_mesh_ok [OF tri])
  have K: "?K = set (map fst (tm_uv_layers ?mesh))" by (simp add: to_mesh_keys)
  have numloops: "length (tm_loops ?mesh) = ?n" by (simp add: to_mesh_def)
  have act: "tm_active_index ?mesh = bm_active_index bm" by (simp add: to_mesh_def)
  define col_data where "col_data =
     (if bm_active_index bm \<noteq> -1 then Some (tm_vertex_colors ?mesh ! nat (bm_active_index bm)) else None)"
  define vertcollist where "vertcollist =
     (if bm_active_index bm \<noteq> -1 then Some (replicate (?n * 4) PyNone) else None)"
  define st0 where "st0 = \<lparr>st_indices = [], st_vertposlist = replicate (?n * 3) PyNone,
       st_vertnormallist = replicate (?n * 3) PyNone, st_uvdata = ?uv0, st_vertcollist = vertcollist\<rparr>"
  have cd: "(if bm_active_index bm \<noteq> -1
             then ebind (list_get_int (tm_vertex_colors ?mesh) (bm_active_index bm)) (\<lambda>d. Inr (Some d))
             else Inr None) = Inr col_data"
    using col_data_ok [OF col, of host] by (simp add: col_data_def)
  have cf: "col_filled col_data ?n 0 vertcollist"
  proof (cases "bm_active_index bm = -1")
    case True
    then show ?thesis by (simp add: col_filled_def col_data_def vertcollist_def)
  next
    case False
    from col_data_ok [OF col False, of host] ok
    have "length (tm_vertex_colors ?mesh ! nat (bm_active_index bm)) = ?n"
      by (simp add: tm_ok_def)
    with False show ?thesis
      by (simp add: col_filled_def col_data_def vertcollist_def filled_replicate)
  qed
  have uvf: "uv_filled ?K ?n 0 {} ?uv0"
    by (auto simp: uv_filled_def map_of_fold_update to_mesh_keys filled_replicate dom_def)
  have dis: "distinct (map fst ?uv0)" by (simp add: distinct_fold_update)
  have inv0: "loop_inv ?K col_data ?n 0 st0"
    using cf uvf dis by (simp add: loop_inv_def st0_def filled_replicate)
  from loop_inv_all [OF ok K inv0] obtain st where
    run: "efold (loop_step ?mesh col_data) (tm_loops ?mesh) st0 = Inr st"
    and inv: "loop_inv ?K col_data ?n ?n st" by blast
  from inv have ind: "st_indices st = [0..<?n]"
    and pos: "length (st_vertposlist st) = 3 * ?n \<and> list_all is_float (st_vertposlist st)"
    and nor: "length (st_vertnormallist st) = 3 * ?n \<and> list_all is_float (st_vertnormallist st)"
    and uvd: "uv_filled ?K ?n ?n {} (st_uvdata st)" and dst: "distinct (map fst (st_uvdata st))"
    and colf: "col_filled col_data ?n ?n (st_vertcollist st)"
    by (auto simp: loop_inv_def dest: filled_done)
  define vd0 where "vd0 = (case st_vertcollist st of
        None \<Rightarrow>
          [(Position, \<lparr>va_type = ''float32'', va_components = 3, va_data = st_vertposlist st\<rparr>),
           (Normal, \<lparr>va_type = ''float32'', va_components = 3, va_data = st_vertnormallist st\<rparr>)]
      | Some lst \<Rightarrow> AList.update Color \<lparr>va_type = ''uint8'', va_components = 4, va_data = lst\<rparr>
          [(Position, \<lparr>va_type = ''float32'', va_components = 3, va_data = st_vertposlist st\<rparr>),
           (Normal, \<lparr>va_type = ''float32'', va_components = 3, va_data = st_vertnormallist st\<rparr>)])"
  from uvd have keys: "fst ` set (st_uvdata st) = ?K"
    by (simp add: uv_filled_def dom_map_of_conv_image_fst)
  with uvs have sub: "fst ` set (st_uvdata st) \<subseteq> set uv_list" by simp
  from texcoord_named [OF dst sub, of vd0] obtain vd where
    tex: "efold (texcoord_step uv_list) (st_uvdata st) vd0 = Inr vd"
    and named: "\<forall>name data. (name, data) \<in> set (st_uvdata st) \<longrightarrow>
              map_of vd (TexCoord (index_of uv_list name))
                = Some \<lparr>va_type = ''float32'', va_components = 2, va_data = data\<rparr>" by blast
  have res: "update_mesh_data host bm uv_list = Inr (st_indices st, vd)"
    using cd run tex unfolding update_mesh_data_def Let_def act numloops st0_def vertcollist_def vd0_def
    by simp
  have other: "map_of vd key = map_of vd0 key" if "key = Position \<or> key = Normal \<or> key = Color" for key
    using texcoord_other_keys [OF tex, of key] that by auto
  have p: "\<exists>d. map_of vd Position = Some \<lparr>va_type = ''float32'', va_components = 3, va_data = d\<rparr>
           \<and> length d = 3 * ?n \<and> list_all is_float d"
    using other [of Position] pos by (simp add: vd0_def update_conv' split: option.splits)
  have q: "\<exists>d. map_of vd Normal = Some \<lparr>va_type = ''float32'', va_components = 3, va_data = d\<rparr>
           \<and> length d = 3 * ?n \<and> list_all is_float d"
    using other [of Normal] nor by (simp add: vd0_def update_conv' split: option.splits)
  have c: "if bm_active_index bm = -1 then map_of vd Color = None
       else \<exists>d. map_of vd Color = Some \<lparr>va_type = ''uint8'', va_components = 4, va_data = d\<rparr>
                \<and> length d = 4 * ?n \<and> list_all is_int d"
  proof (cases "bm_active_index bm = -1")
    case True
    with colf have "st_vertcollist st = None" by (simp add: col_filled_def col_data_def)
    with True other [of Color] show ?thesis by (simp add: vd0_def)
  next
    case False
    with colf obtain lst where "st_vertcollist st = Some lst" "filled is_int 4 ?n ?n lst"
      by (auto simp: col_filled_def col_data_def)
    with False other [of Color] filled_done [of is_int 4 ?n lst] show ?thesis
      by (simp add: vd0_def update_conv')
  qed
  have t: "\<forall>name \<in> set (bm_uv_layers bm). \<exists>d. map_of vd (TexCoord (index_of uv_list name))
                              = Some \<lparr>va_type = ''float32'', va_components = 2, va_data = d\<rparr>
                          \<and> length d = 2 * ?n \<and> list_all is_float d"
  proof
    fix name assume "name \<in> set (bm_uv_layers bm)"
    with uvd have "name \<in> dom (map_of (st_uvdata st))" by (simp add: uv_filled_def)
    then obtain d where d: "map_of (st_uvdata st) name = Some d" by blast
    with uvd have "filled is_float 2 ?n ?n d" by (simp add: uv_filled_def)
    from filled_done [OF this] named map_of_SomeD [OF d]
    show "\<exists>d. map_of vd (TexCoord (index_of uv_list name))
                              = Some \<lparr>va_type = ''float32'', va_components = 2, va_data = d\<rparr>
                          \<and> length d = 2 * ?n \<and> list_all is_float d" by blast
  qed
  from t have t': "list_all (\<lambda>name. \<exists>d. map_of vd (TexCoord (index_of uv_list name))
                              = Some \<lparr>va_type = ''float32'', va_components = 2, va_data = d\<rparr>
                          \<and> length d = 2 * ?n \<and> list_all is_float d) (bm_uv_layers bm)"
    by (rule list_all_iff [THEN iffD2])
  from ind n3 p q c t' have "flattened bm uv_list (st_indices st, vd)"
    by (cases "bm_active_index bm = -1") (simp_all add: flattened_def Let_def)
  with res show ?thesis by blast
qed

text \<open>
  Claim C2. For a triangulated sub-mesh (every face three loops on vertices of the mesh,
  the active colour layer one of its layers, its UV layers in the registry),
  \<open>MeshParser\<close> returns; its index array is \<open>0, 1, ..., 3 * triangles - 1\<close>, so one index
  for each corner and none shared; \<open>count\<close> is the length of the index array; position and
  normal hold three floats for each index, the array of each UV layer two floats for each
  index, and the colour array, present exactly when there is a colour layer, four
  integers for each index.
\<close>

theorem MeshParser_flattens:
  assumes "triangles_in (bm_verts bm) (bm_faces bm)"
    and "color_layer_ok bm"
    and "set (bm_uv_layers bm) \<subseteq> set uv_list"
  shows "\<exists>m. MeshParser_init host (name, bm, insts) id_num uv_list = Inr m
           \<and> length (mp_indices m) = 3 * length (bm_faces bm)
           \<and> mp_count m = length (mp_indices m)
           \<and> flattened bm uv_list (mp_indices m, mp_vert_data m)"
proof -
  from update_mesh_data_flattened [OF assms, of host] obtain indices vert_data where
    r: "update_mesh_data host bm uv_list = Inr (indices, vert_data)"
    and f: "flattened bm uv_list (indices, vert_data)" by auto
  from f have "length indices = 3 * length (bm_faces bm)"
    by (simp add: flattened_def Let_def)
  with r f show ?thesis by (simp add: MeshParser_init_def)
qed

theorem MeshParser_flattens_witness:
  "triangles_in (bm_verts painted) (bm_faces painted)
   \<and> color_layer_ok painted
   \<and> set (bm_uv_layers painted) \<subseteq> set [''Other'', ''UVMap'']
   \<and> (\<exists>m. MeshParser_init example_host (''Painted'', painted, []) 0 [''Other'', ''UVMap''] = Inr m
          \<and> mp_indices m = [0, 1, 2]
          \<and> mp_count m = 3
          \<and> (\<exists>d. map_of (mp_vert_data m) (TexCoord 1)
                    = Some \<lparr>va_type = ''float32'', va_components = 2, va_data = d\<rparr> \<and> length d = 6)
          \<and> (\<exists>d. map_of (mp_vert_data m) Color
                    = Some \<lparr>va_type = ''uint8'', va_components = 4, va_data = d\<rparr> \<and> length d = 12))"
proof -
  have a: "triangles_in (bm_verts painted) (bm_faces painted)"
    by (simp add: triangles_in_def painted_def f_verts_def)
  have b: "color_layer_ok painted" by (simp add: color_layer_ok_def painted_def)
  have c: "set (bm_uv_layers painted) \<subseteq> set [''Other'', ''UVMap'']" by (simp add: painted_def)
  from MeshParser_flattens [OF a b c, of example_host "''Painted''" "[]" 0]
  obtain m where m: "MeshParser_init example_host (''Painted'', painted, []) 0 [''Other'', ''UVMap''] = Inr m"
    "length (mp_indices m) = 3 * length (bm_faces painted)" "mp_count m = length (mp_indices m)"
    "flattened painted [''Other'', ''UVMap''] (mp_indices m, mp_vert_data m)" by blast
  from m(4) have i: "mp_indices m = [0, 1, 2]"
    by (simp add: flattened_def Let_def painted_def upt_rec)
  from m(4) i have t: "\<exists>d. map_of (mp_vert_data m) (TexCoord 1)
                    = Some \<lparr>va_type = ''float32'', va_components = 2, va_data = d\<rparr> \<and> length d = 6"
    by (auto simp: flattened_def Let_def painted_def)
  from m(4) i have k: "\<exists>d. map_of (mp_vert_data m) Color
                    = Some \<lparr>va_type = ''uint8'', va_components = 4, va_data = d\<rparr> \<and> length d = 12"
    by (auto simp: flattened_def Let_def painted_def)
  from a b c m(1,3) i t k show ?thesis by auto
qed

section \<open>The bounding box\<close>

lemma calculate_bounding_box_no_faces:
  "bm_faces mesh = [] \<Longrightarrow>
   calculate_bounding_box mesh = \<lparr>aabb_min = [Fin 0, Fin 0, Fin 0], aabb_max = [Fin 0, Fin 0, Fin 0]\<rparr>"
  by (simp add: calculate_bounding_box_def)

lemma fold_faces_loops:
  "fold (\<lambda>face. fold f (f_loops face)) fs s = fold f (concat (map f_loops fs)) s"
  by (induction fs arbitrary: s) auto

lemma py_max_of_min: "py_max (Fin x) (py_min (Fin x) b) = Fin x"
  by (cases b) (auto simp: py_max_def py_min_def)

lemma bounding_box_step_max:
  assumes "length minpos = 3" "length maxpos = 3"
  shows "snd (bounding_box_step loop (minpos, maxpos))
           = [Fin (fst (v_co (l_vert loop))), Fin (fst (snd (v_co (l_vert loop)))),
              Fin (snd (snd (v_co (l_vert loop))))]
       \<and> length (fst (bounding_box_step loop (minpos, maxpos))) = 3"
proof -
  from assms obtain a b c where mn: "minpos = [a, b, c]"
    by (cases minpos; cases "tl minpos"; cases "tl (tl minpos)") auto
  from assms obtain d e f where mx: "maxpos = [d, e, f]"
    by (cases maxpos; cases "tl maxpos"; cases "tl (tl maxpos)") auto
  show ?thesis unfolding mn mx
    by (simp add: bounding_box_step_def Let_def py_max_of_min)
qed

lemma fold_bounding_box_length:
  "length (fst s) = 3 \<Longrightarrow> length (snd s) = 3 \<Longrightarrow>
   length (fst (fold bounding_box_step ls s)) = 3 \<and> length (snd (fold bounding_box_step ls s)) = 3"
proof (induction ls arbitrary: s)
  case Nil
  then show ?case by simp
next
  case (Cons l ls)
  obtain mn mx where s: "s = (mn, mx)" by (cases s)
  with Cons.prems bounding_box_step_max [of mn mx l]
  have "length (fst (bounding_box_step l s)) = 3" "length (snd (bounding_box_step l s)) = 3"
    by simp_all
  from Cons.IH [OF this] show ?case by simp
qed

text \<open>
  With at least one corner, the \<open>max\<close> that \<open>calculate_bounding_box\<close> returns is the
  position of the vertex of the last corner: each pass overwrites \<open>maxpos\<close> with the
  larger of the current coordinate and the running minimum.
\<close>

lemma calculate_bounding_box_max:
  assumes "bm_loops mesh \<noteq> []"
  shows "aabb_max (calculate_bounding_box mesh)
           = map Fin (list_of_vec (v_co (l_vert (last (bm_loops mesh)))))"
proof -
  from assms have faces: "bm_faces mesh \<noteq> []" by (auto simp: bm_loops_def)
  from assms obtain ls l where ls: "bm_loops mesh = ls @ [l]"
    by (metis append_butlast_last_id)
  let ?s = "fold bounding_box_step ls ([Inf, Inf, Inf], [Inf, Inf, Inf])"
  from fold_bounding_box_length [of "([Inf, Inf, Inf], [Inf, Inf, Inf])" ls]
  have len: "length (fst ?s) = 3" "length (snd ?s) = 3" by simp_all
  have "fold (\<lambda>face. fold bounding_box_step (f_loops face)) (bm_faces mesh) ([Inf, Inf, Inf], [Inf, Inf, Inf])
          = bounding_box_step l ?s"
    using ls by (simp add: fold_faces_loops bm_loops_def [symmetric])
  moreover from bounding_box_step_max [OF len, of l]
  have "snd (bounding_box_step l ?s) = map Fin (list_of_vec (v_co (l_vert l)))"
    by (simp add: list_of_vec_def)
  ultimately show ?thesis using faces ls
    by (simp add: calculate_bounding_box_def Let_def case_prod_unfold)
qed

lemma fold_py_min:
  "fold (\<lambda>l m. py_min (Fin (g l)) m) ls b =
     (case b of
        Inf \<Rightarrow> (if ls = [] then Inf else Fin (Min (g ` set ls)))
      | Fin r \<Rightarrow> Fin (Min (insert r (g ` set ls))))"
proof (induction ls arbitrary: b)
  case Nil
  then show ?case by (cases b) simp_all
next
  case (Cons l ls)
  show ?case
  proof (cases b)
    case Inf
    then have "py_min (Fin (g l)) b = Fin (g l)" by (simp add: py_min_def)
    with Cons.IH [of "Fin (g l)"] Inf show ?thesis by simp
  next
    case (Fin r)
    then have "py_min (Fin (g l)) b = Fin (min (g l) r)" by (auto simp: py_min_def)
    moreover have "Min (insert (min (g l) r) (g ` set ls)) = Min (insert r (insert (g l) (g ` set ls)))"
      by (cases "ls = []") (simp_all add: min.commute min.left_commute)
    ultimately show ?thesis using Cons.IH [of "Fin (min (g l) r)"] Fin by simp
  qed
qed

lemma bounding_box_step_min:
  assumes "length minpos = 3" "length maxpos = 3" "k < 3"
  shows "fst (bounding_box_step loop (minpos, maxpos)) ! k
           = py_min (Fin (list_of_vec (v_co (l_vert loop)) ! k)) (minpos ! k)"
proof -
  from assms obtain a b c where mn: "minpos = [a, b, c]"
    by (cases minpos; cases "tl minpos"; cases "tl (tl minpos)") auto
  from assms obtain d e f where mx: "maxpos = [d, e, f]"
    by (cases maxpos; cases "tl maxpos"; cases "tl (tl maxpos)") auto
  from \<open>k < 3\<close> have "k = 0 \<or> k = 1 \<or> k = 2" by arith
  then show ?thesis unfolding mn mx
    by (auto simp: bounding_box_step_def Let_def list_of_vec_def)
qed

lemma fold_bounding_box_min:
  assumes "length (fst s) = 3" "length (snd s) = 3" "k < 3"
  shows "fst (fold bounding_box_step ls s) ! k
           = fold (\<lambda>l m. py_min (Fin (list_of_vec (v_co (l_vert l)) ! k)) m) ls (fst s ! k)"
  using assms
proof (induction ls arbitrary: s)
  case Nil
  then show ?case by simp
next
  case (Cons l ls)
  obtain mn mx where s: "s = (mn, mx)" by (cases s)
  with Cons.prems bounding_box_step_max [of mn mx l]
  have len: "length (fst (bounding_box_step l s)) = 3" "length (snd (bounding_box_step l s)) = 3"
    by simp_all
  from Cons.IH [OF len \<open>k < 3\<close>] bounding_box_step_min [of mn mx k l] Cons.prems s
  show ?case by simp
qed

text \<open>The \<open>min\<close> of the box is the minimum over the corners, on each axis.\<close>

lemma calculate_bounding_box_min:
  assumes "bm_loops mesh \<noteq> []" "k < 3"
  shows "aabb_min (calculate_bounding_box mesh) ! k
           = Fin (Min ((\<lambda>l. list_of_vec (v_co (l_vert l)) ! k) ` set (bm_loops mesh)))"
proof -
  from assms have faces: "bm_faces mesh \<noteq> []" by (auto simp: bm_loops_def)
  from \<open>k < 3\<close> have k: "[Inf, Inf, Inf] ! k = Inf" 
    by (auto simp: less_Suc_eq numeral_3_eq_3)
  from fold_bounding_box_min [of "([Inf, Inf, Inf], [Inf, Inf, Inf])" k "bm_loops mesh"] assms k
  have "fst (fold bounding_box_step (bm_loops mesh) ([Inf, Inf, Inf], [Inf, Inf, Inf])) ! k
          = Fin (Min ((\<lambda>l. list_of_vec (v_co (l_vert l)) ! k) ` set (bm_loops mesh)))"
    by (simp add: fold_py_min)
  with faces show ?thesis
    by (simp add: calculate_bounding_box_def Let_def case_prod_unfold fold_faces_loops
        bm_loops_def [symmetric])
qed

text \<open>
  Claim C8. The claim holds for a sub-mesh without faces (the box is the origin) and for
  \<open>min\<close>, as the lemmas above show. It fails for \<open>max\<close>: on the triangle
  \<open>(5, 0, 0), (1, 7, 0), (3, 2, 9)\<close> the code returns \<open>max = [3, 2, 9]\<close>, the last
  corner, where the maxima over the corners are \<open>5\<close>, \<open>7\<close> and \<open>9\<close>. The code takes
  \<open>max(vert.co.x, minpos[0])\<close> where the extents need \<open>max(vert.co.x, maxpos[0])\<close>.
\<close>

theorem calculate_bounding_box_painted:
  "calculate_bounding_box painted
     = \<lparr>aabb_min = [Fin 1, Fin 0, Fin 0], aabb_max = [Fin 3, Fin 2, Fin 9]\<rparr>
   \<and> Max ((\<lambda>l. fst (v_co (l_vert l))) ` set (bm_loops painted)) = 5
   \<and> Max ((\<lambda>l. fst (snd (v_co (l_vert l)))) ` set (bm_loops painted)) = 7
   \<and> Max ((\<lambda>l. snd (snd (v_co (l_vert l)))) ` set (bm_loops painted)) = 9"
  by (simp add: calculate_bounding_box_def painted_def bounding_box_step_def Let_def
      py_min_def py_max_def vert_def bm_loops_def)

section \<open>Node records\<close>

text \<open>The definitions unfolded to run an export on an example scene.\<close>

lemmas export_defs = HeirachyExporter_init_def generate_uv_list_def generate_mesh_list_def
  raw_meshes_step_def EMPTY_MESH_def separate_mesh_by_material_def split_material_def
  vert_remove_list_def MeshParser_init_def update_mesh_data_def to_mesh_def bm_loops_def
  loop_step_def uv_step_def col_step_def assign3_def texcoord_step_def calculate_bounding_box_def
  bounding_box_step_def py_min_def py_max_def generate_node_data_def node_dict_def parent_id_def
  instances_def generate_instance_data_def export_mappings_def mapping_step_def mapping_list_def
  data_materials_def MaterialExporter_init_def parse_images_step_def list_get_def list_assign_def
  list_get_int_def dict_get_def list_index_def path_join_def list_of_vec_def f_verts_def
  me_uv_layers_def Let_def

lemmas fixture_defs = example_host_def fan_triangulate_def scaled_root_def example_paths_def
  tri_mesh_def painted_def loose_def plane_def plane_geometry_def vert_def corner_def material_def
  mesh_object_def family_def mixed_def curve_object_def empty_object_def curves_def plane_scene_def
  lit_mesh_def studio_host_def studio_def garden_def
  curves_reversed_def

text \<open>
  The record of an instance without parent: position and rotation are zero, the scale
  is the instance's own.
\<close>

lemma node_dict_no_parent:
  "ob_parent inst = None \<Longrightarrow>
   node_dict inst = \<lparr>nd_name = ob_name inst, nd_position = [0, 0, 0], nd_rotation = [0, 0, 0],
                     nd_scale = list_of_vec (ob_scale inst)\<rparr>"
  by (simp add: node_dict_def)

text \<open>
  Claim C6. Exported alone, the object \<open>Big\<close>, which has no parent and scale
  \<open>(2, 3, 4)\<close>, gets position \<open>[0, 0, 0]\<close> and rotation \<open>[0, 0, 0]\<close> as claimed, and the
  scale \<open>[2, 3, 4]\<close> where the claim has \<open>[1, 1, 1]\<close>: \<open>generate_node_data\<close> sets the
  local \<open>scale\<close> to \<open>[1, 1, 1]\<close> and then writes \<open>instance.scale\<close>.
\<close>

theorem root_node_keeps_scale:
  "\<not> isl (HeirachyExporter_init example_host \<lparr>h_name = ''scene'', h_objects = [scaled_root]\<rparr>
            example_paths)
   \<and> md_nodes (ex_main (projr (HeirachyExporter_init example_host
         \<lparr>h_name = ''scene'', h_objects = [scaled_root]\<rparr> example_paths)))
       = [\<lparr>nd_name = ''RootNode'', nd_position = [0, 0, 0], nd_rotation = [0, 0, 0],
            nd_scale = [1, 1, 1]\<rparr>,
          \<lparr>nd_name = ''Big'', nd_position = [0, 0, 0], nd_rotation = [0, 0, 0],
            nd_scale = [2, 3, 4]\<rparr>]
   \<and> ob_parent scaled_root = None"
  by (simp add: export_defs example_host_def fan_triangulate_def scaled_root_def example_paths_def)

section \<open>The documents of a hierarchy\<close>

lemma HeirachyExporter_init_Inr:
  assumes "HeirachyExporter_init host heirachy path_data = Inr out"
  shows "\<exists>mesh_list mesh_data_list material_list mapping effects0 effects1.
    generate_mesh_list host heirachy = Inr mesh_list \<and>
    efold (\<lambda>(mesh_id, mesh) mesh_data_list.
               ebind (MeshParser_init host mesh mesh_id (generate_uv_list heirachy)) (\<lambda>m.
               Inr (mesh_data_list @ [m])))
            (enumerate 0 mesh_list) [] = Inr mesh_data_list \<and>
    export_mappings host heirachy mesh_list path_data = Inr (material_list, mapping, effects0) \<and>
    efold (\<lambda>mat effects.
               ebind (MaterialExporter_init mat (generate_uv_list heirachy) path_data) (\<lambda>written.
               Inr (effects @ written)))
            material_list effects0 = Inr effects1 \<and>
    md_nodes (ex_main out) = \<lparr>nd_name = ''RootNode'', nd_position = [0, 0, 0],
                        nd_rotation = [0, 0, 0], nd_scale = [1, 1, 1]\<rparr> # fst (generate_node_data mesh_list) \<and>
    md_parents (ex_main out) = -1 # snd (generate_node_data mesh_list) \<and>
    md_vertices (ex_main out) = map mp_vert_data mesh_data_list \<and>
    md_meshes (ex_main out) = mesh_data_list \<and>
    md_meshInstances (ex_main out) = generate_instance_data mesh_list \<and>
    ex_mapping out = mapping \<and>
    ex_materials out = material_list \<and>
    ex_effects out = effects1 @ [WriteFile (path_join (pd_mesh path_data) (h_name heirachy @ ''.json''))]"
proof -
  from assms obtain ml where ml: "generate_mesh_list host heirachy = Inr ml"
    by (auto simp: HeirachyExporter_init_def Let_def ebind_eq_Inr)
  obtain nd ps where g: "generate_node_data ml = (nd, ps)" by (cases "generate_node_data ml")
  from assms ml g show ?thesis
    by (auto simp: HeirachyExporter_init_def Let_def ebind_eq_Inr)
qed

lemma instance_fold:
  "fold (\<lambda>inst (node_id, instance_data).
            (Suc node_id, instance_data @ [\<lparr>in_node = node_id, in_mesh = m\<rparr>])) insts (n, d)
   = (n + length insts, d @ map (\<lambda>j. \<lparr>in_node = n + j, in_mesh = m\<rparr>) [0..<length insts])"
proof (induction insts arbitrary: n d)
  case Nil
  then show ?case by simp
next
  case (Cons i insts)
  have "[0..<length (i # insts)] = 0 # map Suc [0..<length insts]"
    by (simp add: upt_conv_Cons map_Suc_upt del: upt_Suc)
  with Cons [of "Suc n" "d @ [\<lparr>in_node = n, in_mesh = m\<rparr>]"] show ?case
    by (simp add: comp_def del: upt_Suc)
qed

lemma instance_data_fold:
  "fold (\<lambda>(mesh_id, mesh).
            fold (\<lambda>inst (node_id, instance_data).
                    (Suc node_id, instance_data @ [\<lparr>in_node = node_id, in_mesh = mesh_id\<rparr>]))
                 (snd (snd mesh)))
        (enumerate k mesh_list) (n, d)
   = (n + length (instances mesh_list),
      d @ map (\<lambda>(j, m). \<lparr>in_node = n + j, in_mesh = m\<rparr>) (enumerate 0 (mesh_ids k mesh_list)))"
proof (induction mesh_list arbitrary: k n d)
  case Nil
  then show ?case by (simp add: instances_def mesh_ids_def)
next
  case (Cons mesh mesh_list)
  let ?c = "length (snd (snd mesh))"
  have ids: "mesh_ids k (mesh # mesh_list) = replicate ?c k @ mesh_ids (Suc k) mesh_list"
    by (simp add: mesh_ids_def)
  have e: "enumerate 0 (replicate ?c k @ mesh_ids (Suc k) mesh_list)
           = map (\<lambda>j. (j, k)) [0..<?c] @ enumerate ?c (mesh_ids (Suc k) mesh_list)"
    by (simp add: enumerate_append_eq enumerate_replicate_eq)
  have s: "map (\<lambda>(j, m). \<lparr>in_node = n + j, in_mesh = m\<rparr>) (enumerate ?c (mesh_ids (Suc k) mesh_list))
         = map (\<lambda>(j, m). \<lparr>in_node = n + ?c + j, in_mesh = m\<rparr>) (enumerate 0 (mesh_ids (Suc k) mesh_list))"
    by (auto simp: list_eq_iff_nth_eq nth_enumerate_eq add.assoc)
  show ?case
    by (simp add: instance_fold Cons ids e s instances_def comp_def add.assoc)
qed

lemma generate_instance_data_eq:
  "generate_instance_data mesh_list
     = map (\<lambda>(j, m). \<lparr>in_node = 1 + j, in_mesh = m\<rparr>) (enumerate 0 (mesh_ids 0 mesh_list))"
  by (simp add: generate_instance_data_def instance_data_fold)

lemma length_mesh_ids: "length (mesh_ids k mesh_list) = length (instances mesh_list)"
  by (induction mesh_list arbitrary: k) (simp_all add: mesh_ids_def instances_def)

lemma length_generate_instance_data:
  "length (generate_instance_data mesh_list) = length (instances mesh_list)"
  by (simp add: generate_instance_data_eq length_mesh_ids)

lemma generate_instance_data_nth:
  assumes "i < length (instances mesh_list)"
  shows "generate_instance_data mesh_list ! i = \<lparr>in_node = i + 1, in_mesh = mesh_ids 0 mesh_list ! i\<rparr>"
  using assms by (simp add: generate_instance_data_eq length_mesh_ids nth_enumerate_eq)

lemma instances_Cons: "instances (mesh # mesh_list) = snd (snd mesh) @ instances mesh_list"
  by (simp add: instances_def)

lemma mesh_ids_Cons:
  "mesh_ids k (mesh # mesh_list) = replicate (length (snd (snd mesh))) k @ mesh_ids (Suc k) mesh_list"
  by (simp add: mesh_ids_def)

lemma mapping_list_Cons:
  "mapping_list (mesh # mesh_list) = replicate (length (snd (snd mesh))) mesh @ mapping_list mesh_list"
  by (simp add: mapping_list_def map_replicate_const)

lemma length_mapping_list: "length (mapping_list mesh_list) = length (instances mesh_list)"
  by (induction mesh_list) (simp_all add: mapping_list_Cons instances_Cons, simp add: mapping_list_def instances_def)

text \<open>Slot \<open>i\<close> belongs to the sub-mesh with the id recorded for it.\<close>

lemma slot_mesh:
  assumes "i < length (instances mesh_list)"
  shows "\<exists>k < length mesh_list. mesh_ids k0 mesh_list ! i = k0 + k
           \<and> instances mesh_list ! i \<in> set (snd (snd (mesh_list ! k)))
           \<and> mapping_list mesh_list ! i = mesh_list ! k"
  using assms
proof (induction mesh_list arbitrary: i k0)
  case Nil
  then show ?case by (simp add: instances_def)
next
  case (Cons mesh mesh_list)
  let ?c = "length (snd (snd mesh))"
  show ?case
  proof (cases "i < ?c")
    case True
    then have "mesh_ids k0 (mesh # mesh_list) ! i = k0 + 0
        \<and> instances (mesh # mesh_list) ! i \<in> set (snd (snd ((mesh # mesh_list) ! 0)))
        \<and> mapping_list (mesh # mesh_list) ! i = (mesh # mesh_list) ! 0"
      by (simp add: mesh_ids_Cons instances_Cons mapping_list_Cons nth_append)
    then show ?thesis by blast
  next
    case False
    with Cons.prems have "i - ?c < length (instances mesh_list)" by (simp add: instances_Cons)
    from Cons.IH [OF this, of "Suc k0"] obtain k where k: "k < length mesh_list"
      "mesh_ids (Suc k0) mesh_list ! (i - ?c) = Suc k0 + k"
      "instances mesh_list ! (i - ?c) \<in> set (snd (snd (mesh_list ! k)))"
      "mapping_list mesh_list ! (i - ?c) = mesh_list ! k" by blast
    with False have "Suc k < length (mesh # mesh_list) \<and> mesh_ids k0 (mesh # mesh_list) ! i = k0 + Suc k
        \<and> instances (mesh # mesh_list) ! i \<in> set (snd (snd ((mesh # mesh_list) ! Suc k)))
        \<and> mapping_list (mesh # mesh_list) ! i = (mesh # mesh_list) ! Suc k"
      by (simp add: mesh_ids_Cons instances_Cons mapping_list_Cons nth_append)
    then show ?thesis by blast
  qed
qed

text \<open>An instance of sub-mesh \<open>k\<close> has a slot with mesh id \<open>k\<close>.\<close>

lemma instance_slot:
  assumes "k < length mesh_list" "obj \<in> set (snd (snd (mesh_list ! k)))"
  shows "\<exists>i < length (instances mesh_list). instances mesh_list ! i = obj
           \<and> mesh_ids k0 mesh_list ! i = k0 + k"
  using assms
proof (induction mesh_list arbitrary: k k0)
  case Nil
  then show ?case by simp
next
  case (Cons mesh mesh_list)
  let ?c = "length (snd (snd mesh))"
  show ?case
  proof (cases k)
    case 0
    with Cons.prems obtain i where "i < ?c" "snd (snd mesh) ! i = obj"
      by (auto simp: in_set_conv_nth)
    then have "i < length (instances (mesh # mesh_list)) \<and> instances (mesh # mesh_list) ! i = obj
        \<and> mesh_ids k0 (mesh # mesh_list) ! i = k0 + k"
      using 0 by (simp add: mesh_ids_Cons instances_Cons nth_append)
    then show ?thesis by blast
  next
    case (Suc k')
    with Cons.prems have "k' < length mesh_list" "obj \<in> set (snd (snd (mesh_list ! k')))" by simp_all
    from Cons.IH [OF this, of "Suc k0"] obtain i where i: "i < length (instances mesh_list)"
      "instances mesh_list ! i = obj" "mesh_ids (Suc k0) mesh_list ! i = Suc k0 + k'" by blast
    then have "?c + i < length (instances (mesh # mesh_list)) \<and> instances (mesh # mesh_list) ! (?c + i) = obj
        \<and> mesh_ids k0 (mesh # mesh_list) ! (?c + i) = k0 + k"
      using Suc by (simp add: mesh_ids_Cons instances_Cons nth_append)
    then show ?thesis by blast
  qed
qed

lemma raw_meshes_step_map_of:
  "map_of (raw_meshes_step (EMPTY_MESH host) obj raw) =
     (map_of raw)(me_name (data_of host obj) \<mapsto>
        (case map_of raw (me_name (data_of host obj)) of None \<Rightarrow> [obj] | Some insts \<Rightarrow> insts @ [obj]))"
  by (auto simp: raw_meshes_step_def data_of_def Let_def update_conv' split: option.splits ObjData.splits)

lemma raw_meshes_has:
  assumes "obj \<in> set objs \<or> (\<exists>insts. map_of raw (me_name (data_of host obj)) = Some insts \<and> obj \<in> set insts)"
  shows "\<exists>insts. map_of (fold (raw_meshes_step (EMPTY_MESH host)) objs raw) (me_name (data_of host obj)) = Some insts
           \<and> obj \<in> set insts"
  using assms
proof (induction objs arbitrary: raw)
  case Nil
  then show ?case by simp
next
  case (Cons o1 objs)
  let ?raw1 = "raw_meshes_step (EMPTY_MESH host) o1 raw"
  have "obj \<in> set objs \<or> (\<exists>insts. map_of ?raw1 (me_name (data_of host obj)) = Some insts \<and> obj \<in> set insts)"
    using Cons.prems by (auto simp: raw_meshes_step_map_of split: option.splits)
  from Cons.IH [OF this] show ?case by simp
qed

lemma generate_mesh_list_concat:
  assumes "efold (\<lambda>(mesh_name, insts) mesh_list.
                  (case meshes mesh_name of
                     None \<Rightarrow> Inl KeyError
                   | Some mesh \<Rightarrow> Inr (mesh_list @ separate_mesh_by_material host mesh insts)))
               raw acc = Inr ml"
  shows "\<forall>(mesh_name, insts) \<in> set raw. \<exists>mesh. meshes mesh_name = Some mesh
            \<and> set (separate_mesh_by_material host mesh insts) \<subseteq> set ml"
    and "set acc \<subseteq> set ml"
  using assms
proof (induction raw arbitrary: acc)
  case Nil
  { case 1 then show ?case by simp }
  { case 2 then show ?case by simp }
next
  case (Cons x raw)
  obtain mesh_name insts where x: "x = (mesh_name, insts)" by (cases x)
  { case 1
    from 1 x obtain mesh where m: "meshes mesh_name = Some mesh" 
      and r: "efold (\<lambda>(mesh_name, insts) mesh_list.
                  (case meshes mesh_name of
                     None \<Rightarrow> Inl KeyError
                   | Some mesh \<Rightarrow> Inr (mesh_list @ separate_mesh_by_material host mesh insts)))
               raw (acc @ separate_mesh_by_material host mesh insts) = Inr ml"
      by (auto simp: ebind_eq_Inr split: option.splits)
    from Cons.IH(1) [OF r] Cons.IH(2) [OF r] m x show ?case by auto }
  { case 2
    from 2 x obtain mesh where m: "meshes mesh_name = Some mesh" 
      and r: "efold (\<lambda>(mesh_name, insts) mesh_list.
                  (case meshes mesh_name of
                     None \<Rightarrow> Inl KeyError
                   | Some mesh \<Rightarrow> Inr (mesh_list @ separate_mesh_by_material host mesh insts)))
               raw (acc @ separate_mesh_by_material host mesh insts) = Inr ml"
      by (auto simp: ebind_eq_Inr split: option.splits)
    from Cons.IH(2) [OF r] show ?case by auto }
qed

text \<open>An object that is not a mesh is an instance of a sub-mesh named as the placeholder.\<close>

lemma placeholder_instance:
  assumes gm: "generate_mesh_list host heirachy = Inr ml"
    and obj: "obj \<in> set (h_objects heirachy)" "\<not> is_MESH obj"
  shows "\<exists>k < length ml. fst (ml ! k) = new_mesh_name host \<and> obj \<in> set (snd (snd (ml ! k)))"
proof -
  let ?raw = "fold (raw_meshes_step (EMPTY_MESH host)) (h_objects heirachy) []"
  from obj(2) have d: "data_of host obj = EMPTY_MESH host"
    by (simp add: is_MESH_def data_of_def split: ObjData.splits)
  have n: "me_name (EMPTY_MESH host) = new_mesh_name host" by (simp add: EMPTY_MESH_def Let_def)
  have nomat: "me_materials (EMPTY_MESH host) = []" by (simp add: EMPTY_MESH_def Let_def)
  from raw_meshes_has [of obj "h_objects heirachy" "[]" host] obj(1) d n
  obtain insts where i: "map_of ?raw (new_mesh_name host) = Some insts" "obj \<in> set insts" by auto
  from i(1) have mem: "(new_mesh_name host, insts) \<in> set ?raw" by (rule map_of_SomeD)
  from gm generate_mesh_list_concat(1) [where meshes = "(bpy_data_meshes host)(new_mesh_name host \<mapsto> EMPTY_MESH host)"
      and host = host and raw = ?raw and acc = "[]" and ml = ml] mem
  have "set (separate_mesh_by_material host (EMPTY_MESH host) insts) \<subseteq> set ml"
    by (fastforce simp: generate_mesh_list_def Let_def n)
  moreover have "separate_mesh_by_material host (EMPTY_MESH host) insts
      = [(new_mesh_name host, (me_geometry (EMPTY_MESH host))\<lparr>bm_faces := triangulated_faces host (EMPTY_MESH host)\<rparr>, insts)]"
    using separate_mesh_no_materials [OF nomat, of host insts] n by simp
  ultimately obtain g where "(new_mesh_name host, g, insts) \<in> set ml" by auto
  then obtain k where "k < length ml" "ml ! k = (new_mesh_name host, g, insts)"
    by (auto simp: in_set_conv_nth)
  with i(2) show ?thesis by auto
qed

lemma generate_node_data_eq:
  "generate_node_data mesh_list =
     (map node_dict (instances mesh_list),
      map (parent_id (map ob_name (instances mesh_list))) (instances mesh_list))"
  by (simp add: generate_node_data_def Let_def comp_def node_dict_def case_prod_unfold)

lemma parent_id_cases:
  "parent_id names inst = 0 \<or>
   (\<exists>p. ob_parent inst = Some p \<and> p \<in> set names
        \<and> parent_id names inst = int (index_of names p) + 1
        \<and> index_of names p < length names
        \<and> names ! index_of names p = p
        \<and> (\<forall>j < index_of names p. names ! j \<noteq> p))"
proof (cases "ob_parent inst")
  case None
  then show ?thesis by (simp add: parent_id_def)
next
  case (Some p)
  show ?thesis
  proof (cases "p \<in> set names")
    case True
    with Some index_of_less [OF True] nth_index_of [OF True] index_of_first [of _ names p]
    show ?thesis by (auto simp: parent_id_def)
  next
    case False
    with Some show ?thesis by (simp add: parent_id_def)
  qed
qed

text \<open>
  Claim C9. In every main document the exporter emits, \<open>nodes\<close> and \<open>parents\<close> have
  one entry more than \<open>meshInstances\<close>, and mesh instance \<open>i\<close> names node \<open>i + 1\<close>.
  Every object of the hierarchy that is not a mesh has a mesh-instance slot whose node is
  the record of the object and whose mesh is a sub-mesh under the name of the placeholder.
\<close>

theorem node_ids_in_lockstep:
  assumes "HeirachyExporter_init host heirachy path_data = Inr out"
  shows "length (md_nodes (ex_main out)) = length (md_meshInstances (ex_main out)) + 1
       \<and> length (md_parents (ex_main out)) = length (md_meshInstances (ex_main out)) + 1
       \<and> (\<forall>i < length (md_meshInstances (ex_main out)).
             in_node (md_meshInstances (ex_main out) ! i) = i + 1)
       \<and> (\<exists>mesh_list. generate_mesh_list host heirachy = Inr mesh_list \<and>
            (\<forall>obj \<in> set (h_objects heirachy). \<not> is_MESH obj \<longrightarrow>
               (\<exists>i < length (md_meshInstances (ex_main out)).
                  md_nodes (ex_main out) ! in_node (md_meshInstances (ex_main out) ! i) = node_dict obj
                \<and> fst (mesh_list ! in_mesh (md_meshInstances (ex_main out) ! i)) = new_mesh_name host)))"
proof -
  from HeirachyExporter_init_Inr [OF assms] obtain ml where
    gm: "generate_mesh_list host heirachy = Inr ml"
    and nodes: "md_nodes (ex_main out) = \<lparr>nd_name = ''RootNode'', nd_position = [0, 0, 0],
                        nd_rotation = [0, 0, 0], nd_scale = [1, 1, 1]\<rparr> # fst (generate_node_data ml)"
    and parents: "md_parents (ex_main out) = -1 # snd (generate_node_data ml)"
    and insts: "md_meshInstances (ex_main out) = generate_instance_data ml"
    by blast
  let ?mi = "md_meshInstances (ex_main out)"
  have len: "length ?mi = length (instances ml)"
    by (simp add: insts length_generate_instance_data)
  have a: "length (md_nodes (ex_main out)) = length ?mi + 1"
    by (simp add: nodes len generate_node_data_eq)
  have b: "length (md_parents (ex_main out)) = length ?mi + 1"
    by (simp add: parents len generate_node_data_eq)
  have c: "\<forall>i < length ?mi. in_node (?mi ! i) = i + 1"
    using len by (simp add: insts generate_instance_data_nth)
  have d: "\<exists>i < length ?mi. md_nodes (ex_main out) ! in_node (?mi ! i) = node_dict obj
                \<and> fst (ml ! in_mesh (?mi ! i)) = new_mesh_name host"
    if "obj \<in> set (h_objects heirachy)" "\<not> is_MESH obj" for obj
  proof -
    from placeholder_instance [OF gm that] obtain k where
      k: "k < length ml" "fst (ml ! k) = new_mesh_name host" "obj \<in> set (snd (snd (ml ! k)))" by blast
    from instance_slot [OF k(1,3), of 0] obtain i where
      i: "i < length (instances ml)" "instances ml ! i = obj" "mesh_ids 0 ml ! i = k" by auto
    from i k(2) len have "i < length ?mi \<and> md_nodes (ex_main out) ! in_node (?mi ! i) = node_dict obj
                \<and> fst (ml ! in_mesh (?mi ! i)) = new_mesh_name host"
      by (simp add: insts generate_instance_data_nth nodes generate_node_data_eq)
    then show ?thesis by blast
  qed
  from a b c d gm show ?thesis by blast
qed

text \<open>
  Claim C3, as amended. In every emitted main document \<open>parents[0]\<close> is \<open>-1\<close>,
  \<open>parents\<close> is as long as \<open>nodes\<close>, and for \<open>i > 0\<close> the entry \<open>parents[i]\<close> is \<open>0\<close> or
  the index of a node of \<open>nodes\<close> other than the root: the first node that carries the
  name of the parent of instance \<open>i\<close>. That node may come after \<open>i\<close>.
\<close>

theorem parents_name_nodes:
  assumes "HeirachyExporter_init host heirachy path_data = Inr out"
  shows "md_parents (ex_main out) ! 0 = -1
       \<and> length (md_parents (ex_main out)) = length (md_nodes (ex_main out))
       \<and> (\<exists>mesh_list. generate_mesh_list host heirachy = Inr mesh_list \<and>
            (\<forall>i. 0 < i \<and> i < length (md_parents (ex_main out)) \<longrightarrow>
               md_nodes (ex_main out) ! i = node_dict (instances mesh_list ! (i - 1)) \<and>
               (md_parents (ex_main out) ! i = 0 \<or>
                (0 < md_parents (ex_main out) ! i
                 \<and> md_parents (ex_main out) ! i < int (length (md_nodes (ex_main out)))
                 \<and> ob_parent (instances mesh_list ! (i - 1))
                     = Some (nd_name (md_nodes (ex_main out) ! nat (md_parents (ex_main out) ! i)))
                 \<and> (\<forall>j. 0 < j \<and> j < nat (md_parents (ex_main out) ! i) \<longrightarrow>
                       nd_name (md_nodes (ex_main out) ! j)
                         \<noteq> nd_name (md_nodes (ex_main out) ! nat (md_parents (ex_main out) ! i)))))))"
proof -
  from HeirachyExporter_init_Inr [OF assms] obtain ml where
    gm: "generate_mesh_list host heirachy = Inr ml"
    and nodes: "md_nodes (ex_main out) = \<lparr>nd_name = ''RootNode'', nd_position = [0, 0, 0],
                        nd_rotation = [0, 0, 0], nd_scale = [1, 1, 1]\<rparr> # fst (generate_node_data ml)"
    and parents: "md_parents (ex_main out) = -1 # snd (generate_node_data ml)"
    by blast
  let ?names = "map ob_name (instances ml)"
  let ?nodes = "md_nodes (ex_main out)"
  let ?parents = "md_parents (ex_main out)"
  have nd: "?nodes ! Suc j = node_dict (instances ml ! j)" if "j < length (instances ml)" for j
    using that by (simp add: nodes generate_node_data_eq)
  have nm: "nd_name (?nodes ! Suc j) = ?names ! j" if "j < length (instances ml)" for j
    using that by (simp add: nd node_dict_def case_prod_unfold)
  have pa: "?parents ! Suc j = parent_id ?names (instances ml ! j)" if "j < length (instances ml)" for j
    using that by (simp add: parents generate_node_data_eq)
  have a: "?parents ! 0 = -1" by (simp add: parents)
  have b: "length ?parents = length ?nodes" by (simp add: parents nodes generate_node_data_eq)
  have c: "?nodes ! i = node_dict (instances ml ! (i - 1)) \<and>
               (?parents ! i = 0 \<or>
                (0 < ?parents ! i \<and> ?parents ! i < int (length ?nodes)
                 \<and> ob_parent (instances ml ! (i - 1)) = Some (nd_name (?nodes ! nat (?parents ! i)))
                 \<and> (\<forall>j. 0 < j \<and> j < nat (?parents ! i) \<longrightarrow>
                       nd_name (?nodes ! j) \<noteq> nd_name (?nodes ! nat (?parents ! i)))))"
    if "0 < i \<and> i < length ?parents" for i
  proof -
    from that obtain i' where i': "i = Suc i'" "i' < length (instances ml)"
      by (cases i) (auto simp: parents generate_node_data_eq)
    let ?inst = "instances ml ! i'"
    from parent_id_cases [of ?names ?inst]
    show ?thesis
    proof
      assume "parent_id ?names ?inst = 0"
      with i' show ?thesis by (simp add: nd pa)
    next
      assume "\<exists>p. ob_parent ?inst = Some p \<and> p \<in> set ?names
        \<and> parent_id ?names ?inst = int (index_of ?names p) + 1
        \<and> index_of ?names p < length ?names
        \<and> ?names ! index_of ?names p = p
        \<and> (\<forall>j < index_of ?names p. ?names ! j \<noteq> p)"
      then obtain p where p: "ob_parent ?inst = Some p"
        "parent_id ?names ?inst = int (index_of ?names p) + 1"
        "index_of ?names p < length ?names" "?names ! index_of ?names p = p"
        "\<forall>j < index_of ?names p. ?names ! j \<noteq> p" by blast
      let ?k = "index_of ?names p"
      from p(3) have k: "?k < length (instances ml)" by simp
      from i' p(2) have par: "?parents ! i = int ?k + 1" by (simp add: pa)
      then have natp: "nat (?parents ! i) = Suc ?k" by simp
      have name: "nd_name (?nodes ! Suc ?k) = p" using nm [OF k] p(4) by simp
      have first: "nd_name (?nodes ! j) \<noteq> p" if "0 < j \<and> j < Suc ?k" for j
      proof -
        from that obtain j' where j': "j = Suc j'" "j' < ?k" by (cases j) auto
        with k have "j' < length (instances ml)" by simp
        from nm [OF this] p(5) j' show ?thesis by simp
      qed
      from i' par natp name first p(1) k nd [OF i'(2)] show ?thesis
        by (simp add: nodes generate_node_data_eq)
    qed
  qed
  from a b c gm show ?thesis by blast
qed

subsection \<open>The exports of the example scenes\<close>

lemma family_export:
  "HeirachyExporter_init example_host family example_paths
     = Inr (projr (HeirachyExporter_init example_host family example_paths))"
proof -
  have "\<not> isl (HeirachyExporter_init example_host family example_paths)"
    by (simp add: export_defs fixture_defs)
  then show ?thesis by (cases "HeirachyExporter_init example_host family example_paths") simp_all
qed

lemma mixed_export:
  "HeirachyExporter_init example_host mixed example_paths
     = Inr (projr (HeirachyExporter_init example_host mixed example_paths))"
proof -
  have "\<not> isl (HeirachyExporter_init example_host mixed example_paths)"
    by (simp add: export_defs fixture_defs)
  then show ?thesis by (cases "HeirachyExporter_init example_host mixed example_paths") simp_all
qed

theorem node_ids_in_lockstep_witness:
  "HeirachyExporter_init example_host mixed example_paths
     = Inr (projr (HeirachyExporter_init example_host mixed example_paths))
   \<and> length (md_meshInstances (ex_main (projr (HeirachyExporter_init example_host mixed example_paths)))) = 2
   \<and> length (md_nodes (ex_main (projr (HeirachyExporter_init example_host mixed example_paths)))) = 3
   \<and> length (md_parents (ex_main (projr (HeirachyExporter_init example_host mixed example_paths)))) = 3
   \<and> in_node (md_meshInstances (ex_main (projr (HeirachyExporter_init example_host mixed example_paths))) ! 1) = 2"
proof -
  let ?out = "projr (HeirachyExporter_init example_host mixed example_paths)"
  have n: "length (md_meshInstances (ex_main ?out)) = 2"
    by (simp add: export_defs fixture_defs)
  from node_ids_in_lockstep [OF mixed_export] n
  have "length (md_nodes (ex_main ?out)) = 3" "length (md_parents (ex_main ?out)) = 3"
    "in_node (md_meshInstances (ex_main ?out) ! 1) = 2"
    by simp_all
  with mixed_export n show ?thesis by simp
qed

text \<open>
  Claim C3 as stated fails on the scene \<open>family\<close>, whose objects are listed parents
  first: the nodes are \<open>RootNode, X, C, P\<close>, since \<open>X\<close> and \<open>C\<close> share a mesh, and the
  parent of node 2 is node 3.
\<close>

theorem parent_after_child:
  "\<not> isl (HeirachyExporter_init example_host family example_paths)
   \<and> map nd_name (md_nodes (ex_main (projr (HeirachyExporter_init example_host family example_paths))))
       = [''RootNode'', ''X'', ''C'', ''P'']
   \<and> md_parents (ex_main (projr (HeirachyExporter_init example_host family example_paths)))
       = [-1, 0, 3, 0]
   \<and> \<not> md_parents (ex_main (projr (HeirachyExporter_init example_host family example_paths))) ! 2 < 2"
  by (simp add: export_defs fixture_defs)

theorem parents_name_nodes_witness:
  "HeirachyExporter_init example_host family example_paths
     = Inr (projr (HeirachyExporter_init example_host family example_paths))
   \<and> md_parents (ex_main (projr (HeirachyExporter_init example_host family example_paths))) ! 0 = -1
   \<and> length (md_parents (ex_main (projr (HeirachyExporter_init example_host family example_paths))))
       = length (md_nodes (ex_main (projr (HeirachyExporter_init example_host family example_paths))))"
  using parents_name_nodes [OF family_export] family_export by simp

section \<open>The mapping document and the material files\<close>



text \<open>One pass of the loop over \<open>mapping_list\<close>.\<close>

lemma mapping_step_Inr:
  assumes "mapping_step dir path_data mesh_map st = Inr st'"
  shows "\<exists>path. ms_mapping st' = ms_mapping st @ [path] \<and> mapping_entry dir mesh_map path
           \<and> ((\<exists>mat. path = material_path dir mat
                      \<and> ms_materials st' = AList.update (mat_name mat) mat (ms_materials st)
                      \<and> ms_effects st' = ms_effects st)
              \<or> (path = dummy_path dir \<and> ms_materials st' = ms_materials st
                  \<and> ms_effects st' = ms_effects st @ [WriteFile (dummy_path (pd_mat path_data))]))"
proof -
  from assms obtain inst where inst: "list_get (snd (snd mesh_map)) 0 = Inr inst"
    by (auto simp: mapping_step_def Let_def ebind_eq_Inr)
  then have ne: "snd (snd mesh_map) \<noteq> []" and hd: "hd (snd (snd mesh_map)) = inst"
    by (auto simp: list_get_def hd_conv_nth split: if_splits)
  show ?thesis
  proof (cases "data_materials (ob_data inst)")
    case None
    with assms inst ne hd show ?thesis
      by (auto simp: mapping_step_def Let_def mapping_entry_def dummy_path_def)
  next
    case (Some materials)
    show ?thesis
    proof (cases "bm_faces (fst (snd mesh_map))")
      case Nil
      with assms inst Some ne hd show ?thesis
        by (auto simp: mapping_step_def Let_def mapping_entry_def material_path_def ebind_eq_Inr
            split: option.splits)
    next
      case (Cons face faces)
      with assms inst Some ne hd show ?thesis
        by (auto simp: mapping_step_def Let_def mapping_entry_def material_path_def ebind_eq_Inr
            list_get_def split: option.splits if_splits)
    qed
  qed
qed

lemma mapping_loop_entries:
  assumes "efold (mapping_step dir path_data) maps st = Inr st'"
  shows "\<exists>new. ms_mapping st' = ms_mapping st @ new \<and> length new = length maps
           \<and> (\<forall>i < length maps. mapping_entry dir (maps ! i) (new ! i))"
  using assms
proof (induction maps arbitrary: st)
  case Nil
  then show ?case by simp
next
  case (Cons m maps)
  from Cons.prems obtain st1 where s1: "mapping_step dir path_data m st = Inr st1"
    and r: "efold (mapping_step dir path_data) maps st1 = Inr st'"
    by (auto simp: ebind_eq_Inr)
  from mapping_step_Inr [OF s1] obtain path where
    p: "ms_mapping st1 = ms_mapping st @ [path]" "mapping_entry dir m path" by blast
  from Cons.IH [OF r] obtain new where
    n: "ms_mapping st' = ms_mapping st1 @ new" "length new = length maps"
    "\<forall>i < length maps. mapping_entry dir (maps ! i) (new ! i)" by blast
  have "\<forall>i < length (m # maps). mapping_entry dir ((m # maps) ! i) ((path # new) ! i)"
    using p(2) n(3) by (auto simp: nth_Cons split: nat.splits)
  with p(1) n(1,2) show ?case
    by (intro exI [of _ "path # new"]) simp
qed





lemma export_mappings_Inr:
  assumes "export_mappings host heirachy mesh_list path_data = Inr (material_list, mapping, effects)"
  shows "\<exists>st. efold (mapping_step (relpath host (pd_mat path_data) (pd_mesh path_data)) path_data)
                (mapping_list mesh_list)
                \<lparr>ms_mat_id = None, ms_materials = [], ms_mapping = [], ms_effects = []\<rparr> = Inr st
           \<and> material_list = map snd (ms_materials st) \<and> mapping = ms_mapping st
           \<and> effects = ms_effects st
                @ [WriteFile (path_join (pd_mesh path_data) (h_name heirachy @ ''.mapping.json''))]"
  using assms by (auto simp: export_mappings_def Let_def ebind_eq_Inr)

text \<open>
  The two lists side by side. In every export that returns its documents, \<open>mapping\<close> and
  \<open>meshInstances\<close> have the same length and the same order, and entry \<open>i\<close> is what
  \<open>export_mappings\<close> computes for the sub-mesh \<open>meshInstances[i]['mesh']\<close> from the data
  of the first instance of that sub-mesh.
\<close>

lemma mapping_aligned:
  assumes "HeirachyExporter_init host heirachy path_data = Inr out"
  shows "length (ex_mapping out) = length (md_meshInstances (ex_main out))
       \<and> (\<exists>mesh_list. generate_mesh_list host heirachy = Inr mesh_list \<and>
            (\<forall>i < length (ex_mapping out).
               in_mesh (md_meshInstances (ex_main out) ! i) < length mesh_list \<and>
               mapping_entry (relpath host (pd_mat path_data) (pd_mesh path_data))
                 (mesh_list ! in_mesh (md_meshInstances (ex_main out) ! i))
                 (ex_mapping out ! i)))"
proof -
  let ?dir = "relpath host (pd_mat path_data) (pd_mesh path_data)"
  from HeirachyExporter_init_Inr [OF assms] obtain ml mats effects0 where
    gm: "generate_mesh_list host heirachy = Inr ml"
    and em: "export_mappings host heirachy ml path_data = Inr (mats, ex_mapping out, effects0)"
    and insts: "md_meshInstances (ex_main out) = generate_instance_data ml"
    by auto
  from export_mappings_Inr [OF em] obtain st where
    st: "efold (mapping_step ?dir path_data) (mapping_list ml)
           \<lparr>ms_mat_id = None, ms_materials = [], ms_mapping = [], ms_effects = []\<rparr> = Inr st"
    and mp: "ex_mapping out = ms_mapping st" by blast
  from mapping_loop_entries [OF st] mp have
    len: "length (ex_mapping out) = length (mapping_list ml)"
    and ent: "\<forall>i < length (mapping_list ml). mapping_entry ?dir (mapping_list ml ! i) (ex_mapping out ! i)"
    by auto
  have a: "length (ex_mapping out) = length (md_meshInstances (ex_main out))"
    by (simp add: len insts length_mapping_list length_generate_instance_data)
  have b: "in_mesh (md_meshInstances (ex_main out) ! i) < length ml \<and>
               mapping_entry ?dir (ml ! in_mesh (md_meshInstances (ex_main out) ! i)) (ex_mapping out ! i)"
    if "i < length (ex_mapping out)" for i
  proof -
    from that len have i: "i < length (instances ml)" by (simp add: length_mapping_list)
    from slot_mesh [OF i, of 0] obtain k where k: "k < length ml" "mesh_ids 0 ml ! i = k"
      "mapping_list ml ! i = ml ! k" by auto
    from ent that len have "mapping_entry ?dir (mapping_list ml ! i) (ex_mapping out ! i)" by simp
    then have "mapping_entry ?dir (ml ! k) (ex_mapping out ! i)" unfolding k(3) .
    with k i show ?thesis by (simp add: insts generate_instance_data_nth)
  qed
  from a b gm show ?thesis by blast
qed








subsection \<open>Mapping and materials of the example scenes\<close>

lemma garden_export:
  "HeirachyExporter_init example_host garden example_paths
     = Inr (projr (HeirachyExporter_init example_host garden example_paths))"
proof -
  have "\<not> isl (HeirachyExporter_init example_host garden example_paths)"
    by (simp add: export_defs fixture_defs)
  then show ?thesis by (cases "HeirachyExporter_init example_host garden example_paths") simp_all
qed

lemma mapping_aligned_garden:
  "HeirachyExporter_init example_host garden example_paths
     = Inr (projr (HeirachyExporter_init example_host garden example_paths))
   \<and> length (md_meshInstances (ex_main (projr (HeirachyExporter_init example_host garden example_paths)))) = 4
   \<and> length (ex_mapping (projr (HeirachyExporter_init example_host garden example_paths))) = 4"
proof -
  have "length (md_meshInstances (ex_main (projr (HeirachyExporter_init example_host garden example_paths)))) = 4"
    by (simp add: export_defs fixture_defs)
  with mapping_aligned [OF garden_export] garden_export show ?thesis by simp
qed

text \<open>
  Claim C4 does not hold of the scene \<open>curves\<close>. Its two objects are no meshes, so both are
  instances of the placeholder sub-mesh, mesh \<open>0\<close> of the document, and the placeholder
  mesh has no material: their mapping entries should be the dummy \<open>None\<close>. Both entries
  are the path of the material of the curve, because the exporter reads the material list
  from the data of the first instance of the sub-mesh and not from the mesh the sub-mesh
  was made from. With the same objects in the other order the first instance is the
  empty, and both entries are the dummy.
\<close>

theorem placeholder_takes_first_instance_material:
  "\<not> isl (HeirachyExporter_init example_host curves example_paths)
   \<and> map nd_name (md_nodes (ex_main (projr (HeirachyExporter_init example_host curves example_paths))))
       = [''RootNode'', ''Curve'', ''Empty'']
   \<and> map in_mesh (md_meshInstances (ex_main (projr (HeirachyExporter_init example_host curves example_paths))))
       = [0, 0]
   \<and> generate_mesh_list example_host curves
       = Inr [(''EmptyMesh'', me_geometry (EMPTY_MESH example_host), [curve_object, empty_object])]
   \<and> me_materials (EMPTY_MESH example_host) = []
   \<and> data_materials (ob_data curve_object) = Some [material ''Paint'']
   \<and> data_materials (ob_data empty_object) = None
   \<and> ex_mapping (projr (HeirachyExporter_init example_host curves example_paths))
       = [''../Materials/Paint.json'', ''../Materials/Paint.json'']
   \<and> \<not> isl (HeirachyExporter_init example_host curves_reversed example_paths)
   \<and> map nd_name (md_nodes (ex_main (projr (HeirachyExporter_init example_host curves_reversed example_paths))))
       = [''RootNode'', ''Empty'', ''Curve'']
   \<and> ex_mapping (projr (HeirachyExporter_init example_host curves_reversed example_paths))
       = [''../Materials/None.json'', ''../Materials/None.json'']
   \<and> dummy_path ''../Materials'' = ''../Materials/None.json''"
  by (simp add: export_defs fixture_defs dummy_path_def)

lemma plane_export:
  "HeirachyExporter_init example_host plane_scene example_paths
     = Inr (projr (HeirachyExporter_init example_host plane_scene example_paths))"
proof -
  have "\<not> isl (HeirachyExporter_init example_host plane_scene example_paths)"
    by (simp add: export_defs fixture_defs)
  then show ?thesis by (cases "HeirachyExporter_init example_host plane_scene example_paths") simp_all
qed



section \<open>The list of UV layer names and the \<open>texCoord\<close> attributes\<close>

lemma fold_append_each: "fold (\<lambda>layer names. names @ [layer]) ls acc = acc @ ls"
  by (induction ls arbitrary: acc) auto

lemma generate_uv_list_fold:
  "fold (\<lambda>obj layer_names.
            (case ob_data obj of
               MeshData data \<Rightarrow> fold (\<lambda>layer names. names @ [layer]) (me_uv_layers data) layer_names
             | OtherData _ \<Rightarrow> layer_names)) objs acc
   = acc @ concat (map object_uv_layers objs)"
proof (induction objs arbitrary: acc)
  case Nil
  then show ?case by simp
next
  case (Cons obj objs)
  then show ?case
    by (cases "ob_data obj") (simp_all add: object_uv_layers_def fold_append_each)
qed

lemma generate_uv_list_eq:
  "generate_uv_list heirachy = concat (map object_uv_layers (h_objects heirachy))"
  by (simp add: generate_uv_list_def generate_uv_list_fold)

lemma not_in_take_index_of: "x \<notin> set (take (index_of xs x) xs)"
  by (induction xs) auto

lemma first_position_index_of:
  "x \<in> set xs \<Longrightarrow> first_position xs x n = (n = index_of xs x)"
proof (induction xs arbitrary: n)
  case Nil
  then show ?case by simp
next
  case (Cons y ys)
  show ?case
  proof (cases "x = y")
    case True
    then show ?thesis by (cases n) (auto simp: first_position_def)
  next
    case False
    with Cons.prems have mem: "x \<in> set ys" by simp
    show ?thesis
    proof (cases n)
      case 0
      with False show ?thesis by (auto simp: first_position_def)
    next
      case (Suc m)
      from Cons.IH [OF mem, of m] Suc False show ?thesis
        by (auto simp: first_position_def)
    qed
  qed
qed

lemma uv_step_same_keys:
  assumes "uv_step mesh loop uv_lay uvdata = Inr uv'"
  shows "fst ` set uv' = fst ` set uvdata"
proof -
  from assms obtain lst0 lst where g: "dict_get uvdata uv_lay = Inr lst0"
    and u: "uv' = AList.update uv_lay lst uvdata"
    by (auto simp: uv_step_def ebind_eq_Inr)
  from g have "uv_lay \<in> fst ` set uvdata"
    by (auto simp: dict_get_def split: option.splits dest: map_of_SomeD intro: rev_image_eqI)
  with u show ?thesis by (auto simp: dom_update)
qed

lemma uv_loop_same_keys:
  "efold (uv_step mesh loop) ks uvdata = Inr uv' \<Longrightarrow> fst ` set uv' = fst ` set uvdata"
proof (induction ks arbitrary: uvdata)
  case Nil
  then show ?case by simp
next
  case (Cons k ks)
  from Cons.prems obtain uv1 where s: "uv_step mesh loop k uvdata = Inr uv1"
    and r: "efold (uv_step mesh loop) ks uv1 = Inr uv'"
    by (auto simp: ebind_eq_Inr)
  from Cons.IH [OF r] uv_step_same_keys [OF s] show ?case by simp
qed

lemma loop_step_same_keys:
  assumes "loop_step mesh col_data loop st = Inr st'"
  shows "fst ` set (st_uvdata st') = fst ` set (st_uvdata st)"
proof -
  from assms obtain uvdata where
    u: "efold (uv_step mesh loop) (map fst (tm_uv_layers mesh)) (st_uvdata st) = Inr uvdata"
    and s: "st_uvdata st' = uvdata"
    by (auto simp: loop_step_def ebind_eq_Inr)
  from uv_loop_same_keys [OF u] s show ?thesis by simp
qed

lemma loop_same_keys:
  "efold (loop_step mesh col_data) loops st = Inr st'
   \<Longrightarrow> fst ` set (st_uvdata st') = fst ` set (st_uvdata st)"
proof (induction loops arbitrary: st)
  case Nil
  then show ?case by simp
next
  case (Cons l loops)
  from Cons.prems obtain st1 where s: "loop_step mesh col_data l st = Inr st1"
    and r: "efold (loop_step mesh col_data) loops st1 = Inr st'"
    by (auto simp: ebind_eq_Inr)
  from Cons.IH [OF r] loop_step_same_keys [OF s] show ?case by simp
qed

lemma keys_fold_update:
  "fst ` set (fold (\<lambda>i d. AList.update i v d) ks d0) = set ks \<union> fst ` set d0"
  by (induction ks arbitrary: d0) (auto simp: dom_update)

lemma update_mesh_data_texcoords:
  assumes "update_mesh_data host bm uv_list = Inr (indices, vert_data)"
  shows "set (bm_uv_layers bm) \<subseteq> set uv_list
       \<and> (\<forall>N. TexCoord N \<in> fst ` set vert_data
              \<longleftrightarrow> (\<exists>name \<in> set (bm_uv_layers bm). first_position uv_list name N))"
proof -
  let ?mesh = "to_mesh host bm"
  let ?uv0 = "fold (\<lambda>i d. AList.update i (replicate (length (tm_loops ?mesh) * 2) PyNone) d)
                   (map fst (tm_uv_layers ?mesh)) []"
  from assms obtain col_data st where
    lp: "efold (loop_step ?mesh col_data) (tm_loops ?mesh)
           \<lparr>st_indices = [], st_vertposlist = replicate (length (tm_loops ?mesh) * 3) PyNone,
            st_vertnormallist = replicate (length (tm_loops ?mesh) * 3) PyNone, st_uvdata = ?uv0,
            st_vertcollist = (if tm_active_index ?mesh \<noteq> -1
                              then Some (replicate (length (tm_loops ?mesh) * 4) PyNone) else None)\<rparr>
         = Inr st"
    and tc0: "efold (texcoord_step uv_list) (st_uvdata st)
           (case st_vertcollist st of
              None \<Rightarrow>
                [(Position, \<lparr>va_type = ''float32'', va_components = 3, va_data = st_vertposlist st\<rparr>),
                 (Normal, \<lparr>va_type = ''float32'', va_components = 3, va_data = st_vertnormallist st\<rparr>)]
            | Some lst \<Rightarrow> AList.update Color
                \<lparr>va_type = ''uint8'', va_components = 4, va_data = lst\<rparr>
                [(Position, \<lparr>va_type = ''float32'', va_components = 3, va_data = st_vertposlist st\<rparr>),
                 (Normal, \<lparr>va_type = ''float32'', va_components = 3, va_data = st_vertnormallist st\<rparr>)])
         = Inr vert_data"
    by (auto simp: update_mesh_data_def Let_def ebind_eq_Inr)
  obtain vd0 where vd0: "fst ` set vd0 \<subseteq> {Position, Normal, Color}"
    and tc: "efold (texcoord_step uv_list) (st_uvdata st) vd0 = Inr vert_data"
  proof (cases "st_vertcollist st")
    case None
    with tc0 that [of "[(Position, \<lparr>va_type = ''float32'', va_components = 3, va_data = st_vertposlist st\<rparr>),
                 (Normal, \<lparr>va_type = ''float32'', va_components = 3, va_data = st_vertnormallist st\<rparr>)]"]
    show ?thesis by simp
  next
    case (Some lst)
    with tc0 that [of "AList.update Color
                \<lparr>va_type = ''uint8'', va_components = 4, va_data = lst\<rparr>
                [(Position, \<lparr>va_type = ''float32'', va_components = 3, va_data = st_vertposlist st\<rparr>),
                 (Normal, \<lparr>va_type = ''float32'', va_components = 3, va_data = st_vertnormallist st\<rparr>)]"]
    show ?thesis by simp
  qed
  from loop_same_keys [OF lp] have keys: "fst ` set (st_uvdata st) = set (bm_uv_layers bm)"
    by (simp add: keys_fold_update to_mesh_keys)
  from texcoord_keys [OF tc] keys have
    k: "fst ` set vert_data = fst ` set vd0 \<union> (\<lambda>name. TexCoord (index_of uv_list name)) ` set (bm_uv_layers bm)"
    and sub: "set (bm_uv_layers bm) \<subseteq> set uv_list" by simp_all
  have "TexCoord N \<in> fst ` set vert_data
          \<longleftrightarrow> (\<exists>name \<in> set (bm_uv_layers bm). first_position uv_list name N)" for N
  proof -
    from vd0 have "TexCoord N \<notin> fst ` set vd0" by auto
    with k have "TexCoord N \<in> fst ` set vert_data
        \<longleftrightarrow> (\<exists>name \<in> set (bm_uv_layers bm). N = index_of uv_list name)" by auto
    also have "\<dots> \<longleftrightarrow> (\<exists>name \<in> set (bm_uv_layers bm). first_position uv_list name N)"
      using sub first_position_index_of [of _ uv_list N] by blast
    finally show ?thesis .
  qed
  with sub show ?thesis by blast
qed

lemma MeshParser_loop_nth:
  assumes "efold (\<lambda>(mesh_id, mesh) mesh_data_list.
               ebind (MeshParser_init host mesh mesh_id uv_list) (\<lambda>m.
               Inr (mesh_data_list @ [m])))
            (enumerate n mesh_list) acc = Inr mesh_data_list"
  shows "length mesh_data_list = length acc + length mesh_list
       \<and> (\<forall>k < length mesh_list.
            MeshParser_init host (mesh_list ! k) (n + k) uv_list
              = Inr (mesh_data_list ! (length acc + k)))
       \<and> take (length acc) mesh_data_list = acc"
  using assms
proof (induction mesh_list arbitrary: n acc)
  case Nil
  then show ?case by simp
next
  case (Cons mesh mesh_list)
  from Cons.prems obtain m where m: "MeshParser_init host mesh n uv_list = Inr m"
    and r: "efold (\<lambda>(mesh_id, mesh) mesh_data_list.
               ebind (MeshParser_init host mesh mesh_id uv_list) (\<lambda>m.
               Inr (mesh_data_list @ [m])))
            (enumerate (Suc n) mesh_list) (acc @ [m]) = Inr mesh_data_list"
    by (auto simp: ebind_eq_Inr)
  from Cons.IH [OF r] have len: "length mesh_data_list = length acc + 1 + length mesh_list"
    and nth: "\<forall>k < length mesh_list.
            MeshParser_init host (mesh_list ! k) (Suc n + k) uv_list
              = Inr (mesh_data_list ! (length acc + 1 + k))"
    and tk: "take (length acc + 1) mesh_data_list = acc @ [m]" by simp_all
  from tk have "take (length acc) (take (length acc + 1) mesh_data_list) = take (length acc) (acc @ [m])"
    by simp
  then have tk0: "take (length acc) mesh_data_list = acc" by (simp add: min_def)
  from tk have "take (length acc + 1) mesh_data_list ! length acc = (acc @ [m]) ! length acc"
    by simp
  then have m0: "mesh_data_list ! length acc = m" by simp
  have "MeshParser_init host ((mesh # mesh_list) ! k) (n + k) uv_list
              = Inr (mesh_data_list ! (length acc + k))" if "k < length (mesh # mesh_list)" for k
  proof (cases k)
    case 0
    with m m0 show ?thesis by simp
  next
    case (Suc j)
    with that nth show ?thesis by simp
  qed
  with len tk0 show ?case by simp
qed

lemma MeshParser_init_vert_data:
  "MeshParser_init host mesh id_num uv_list = Inr m
   \<Longrightarrow> \<exists>indices. update_mesh_data host (fst (snd mesh)) uv_list = Inr (indices, mp_vert_data m)"
  by (auto simp: MeshParser_init_def Let_def ebind_eq_Inr)

text \<open>
  Claim C7, as amended. \<open>generate_uv_list\<close> depends on the objects alone and is the
  concatenation, in object order, of the UV layer names of the mesh objects: a name stands
  in it once for each mesh object that has the layer, not once. In every export that
  returns, the names of the UV layers of every sub-mesh are in the list, and the vertex
  buffer of sub-mesh \<open>k\<close> has the attribute \<open>texCoord{N}\<close> exactly when \<open>N\<close> is the first
  position in the list of the name of one of the UV layers of that sub-mesh.
\<close>

theorem texcoords_follow_uv_list:
  assumes "HeirachyExporter_init host heirachy path_data = Inr out"
  shows "generate_uv_list heirachy = concat (map object_uv_layers (h_objects heirachy))
       \<and> (\<exists>mesh_list. generate_mesh_list host heirachy = Inr mesh_list
            \<and> length (md_vertices (ex_main out)) = length mesh_list
            \<and> (\<forall>k < length mesh_list.
                  set (bm_uv_layers (fst (snd (mesh_list ! k)))) \<subseteq> set (generate_uv_list heirachy)
                  \<and> (\<forall>N. TexCoord N \<in> fst ` set (md_vertices (ex_main out) ! k)
                         \<longleftrightarrow> (\<exists>name \<in> set (bm_uv_layers (fst (snd (mesh_list ! k)))).
                                first_position (generate_uv_list heirachy) name N))))"
proof -
  let ?uv = "generate_uv_list heirachy"
  from HeirachyExporter_init_Inr [OF assms] obtain ml mdl where
    gm: "generate_mesh_list host heirachy = Inr ml"
    and ps: "efold (\<lambda>(mesh_id, mesh) mesh_data_list.
               ebind (MeshParser_init host mesh mesh_id ?uv) (\<lambda>m.
               Inr (mesh_data_list @ [m])))
            (enumerate 0 ml) [] = Inr mdl"
    and vs: "md_vertices (ex_main out) = map mp_vert_data mdl"
    by auto
  from MeshParser_loop_nth [OF ps] have len: "length mdl = length ml"
    and nth: "\<forall>k < length ml. MeshParser_init host (ml ! k) k ?uv = Inr (mdl ! k)"
    by simp_all
  have "set (bm_uv_layers (fst (snd (ml ! k)))) \<subseteq> set ?uv
                  \<and> (\<forall>N. TexCoord N \<in> fst ` set (md_vertices (ex_main out) ! k)
                         \<longleftrightarrow> (\<exists>name \<in> set (bm_uv_layers (fst (snd (ml ! k)))).
                                first_position ?uv name N))" if k: "k < length ml" for k
  proof -
    from nth k have "MeshParser_init host (ml ! k) k ?uv = Inr (mdl ! k)" by simp
    from MeshParser_init_vert_data [OF this] obtain indices where
      "update_mesh_data host (fst (snd (ml ! k))) ?uv = Inr (indices, mp_vert_data (mdl ! k))" ..
    from update_mesh_data_texcoords [OF this] k len show ?thesis by (simp add: vs)
  qed
  with gm len show ?thesis by (simp add: vs generate_uv_list_eq)
qed

subsection \<open>The UV layer names of the example scene\<close>

lemma studio_export:
  "HeirachyExporter_init studio_host studio example_paths
     = Inr (projr (HeirachyExporter_init studio_host studio example_paths))"
proof -
  have "\<not> isl (HeirachyExporter_init studio_host studio example_paths)"
    by (simp add: export_defs fixture_defs)
  then show ?thesis by (cases "HeirachyExporter_init studio_host studio example_paths") simp_all
qed

text \<open>
  Claim C7 as stated fails on the scene \<open>studio\<close>: the layer \<open>UVMap\<close> of the mesh shared
  by two objects stands twice in the list, and the layer \<open>Light\<close> is emitted as
  \<open>texCoord2\<close>, its position in the list, not as \<open>texCoord1\<close>.
\<close>

theorem uv_list_repeats_shared_layer:
  "\<not> isl (HeirachyExporter_init studio_host studio example_paths)
   \<and> generate_uv_list studio = [''UVMap'', ''UVMap'', ''Light'']
   \<and> \<not> distinct (generate_uv_list studio)
   \<and> map (map fst) (md_vertices (ex_main (projr (HeirachyExporter_init studio_host studio example_paths))))
       = [[Position, Normal, Color, TexCoord 0], [Position, Normal, TexCoord 2]]"
  by (simp add: export_defs fixture_defs)

theorem texcoords_follow_uv_list_witness:
  "HeirachyExporter_init studio_host studio example_paths
     = Inr (projr (HeirachyExporter_init studio_host studio example_paths))
   \<and> generate_uv_list studio = concat (map object_uv_layers (h_objects studio))
   \<and> length (md_vertices (ex_main (projr (HeirachyExporter_init studio_host studio example_paths)))) = 2
   \<and> first_position (generate_uv_list studio) ''Light'' 2"
proof -
  have "length (md_vertices (ex_main (projr (HeirachyExporter_init studio_host studio example_paths)))) = 2"
    by (simp add: export_defs fixture_defs)
  moreover have "first_position (generate_uv_list studio) ''Light'' 2"
    by (simp add: first_position_def generate_uv_list_def me_uv_layers_def fixture_defs)
  ultimately show ?thesis
    using texcoords_follow_uv_list [OF studio_export] studio_export by simp
qed

end
